theory Spec2Isabelle
  imports Main "HOL-Library.Word"
begin

section \<open>Configuration\<close>

text \<open>
  The fields of the parsed command line (\<^verbatim>\<open>args\<close>) that \<^verbatim>\<open>main\<close> of
  \<^verbatim>\<open>adept/scripts/p2p.py\<close> reads between its first line and the end of the
  parameter synchronisation. Python integers are unbounded, hence \<open>int\<close>.
\<close>

record args =
  tag :: string
  mode_name :: string
  agent :: string
  vision_network :: string
  network_body :: string
  log_dir :: string
  env_id :: string
  seed :: int
  nb_env :: int

section \<open>Seed distribution (p2p.py, lines 63-64)\<close>

text \<open>
  \<^verbatim>\<open>p2pseed = args.seed\<close>
\<close>

definition p2pseed :: "args \<Rightarrow> int" where
  "p2pseed a = seed a"

text \<open>
  \<^verbatim>\<open>seed = args.seed if rank == 0 else args.seed + (args.nb_env * (rank - 1))\<close>

  The rank is the value of \<^verbatim>\<open>comm.Get_rank()\<close>, a natural number; it enters the
  arithmetic as a Python integer.
\<close>

definition main_seed :: "args \<Rightarrow> nat \<Rightarrow> int" where
  "main_seed a rank =
     (if rank = 0 then seed a else seed a + (nb_env a * (int rank - 1)))"

section \<open>Outcomes of a process\<close>

text \<open>
  A call made by one process of the group returns a value, raises an exception that
  ends the process (the script catches none), or never returns because the process stays
  blocked inside a collective operation.
\<close>

datatype error = FileExistsError | PermissionError | MPI_ERR_TRUNCATE | RuntimeError

datatype 'a outcome = Returns 'a | Raises error | Blocks

section \<open>Tensors, process memory and modules\<close>

type_synonym byte = "8 word"

datatype scalar_type = float16 | float32 | float64 | uint8 | int32 | int64

text \<open>
  A tensor (or the numpy array that views it) is its shape, its element type and the bytes
  of its storage. Tensors live in the memory of their process and are referred to by
  address, so that the views taken by \<^verbatim>\<open>state_dict()\<close>, \<^verbatim>\<open>parameters()\<close> and
  \<^verbatim>\<open>.detach().cpu().numpy()\<close> alias the storage of the model.
\<close>

record tensor =
  shape :: "nat list"
  dtype :: scalar_type
  data :: "byte list"

type_synonym memory = "nat \<Rightarrow> tensor"

text \<open>
  \<^verbatim>\<open>torch.nn.Module\<close> as far as \<^verbatim>\<open>parameters()\<close> and \<^verbatim>\<open>state_dict()\<close> read it: the
  name under which the module is registered in its parent, its own parameters and its own
  buffers in registration order (a buffer carries its \<^verbatim>\<open>persistent\<close> flag), and its
  child modules in registration order. torch keeps the names within one module distinct.
\<close>

datatype module =
  Module (registered_name: string)
         (own_parameters: "(string \<times> nat) list")
         (own_buffers: "(string \<times> bool \<times> nat) list")
         (children: "module list")

text \<open>
  \<^verbatim>\<open>Module.parameters()\<close>: the module itself first, then its children, depth first;
  a parameter already yielded (weight sharing) is skipped, which torch does with a
  \<^verbatim>\<open>memo\<close> set.
\<close>

fun all_parameters :: "module \<Rightarrow> nat list" where
  "all_parameters (Module n ps bs ms) = map snd ps @ concat (map all_parameters ms)"

fun skip_memo :: "nat list \<Rightarrow> nat list \<Rightarrow> nat list" where
  "skip_memo memo [] = []"
| "skip_memo memo (v # vs) =
     (if v \<in> set memo then skip_memo memo vs else v # skip_memo (v # memo) vs)"

definition parameters :: "module \<Rightarrow> nat list" where
  "parameters m = skip_memo [] (all_parameters m)"

text \<open>
  \<^verbatim>\<open>Module.state_dict()\<close>: for each module its parameters, then its persistent
  buffers, then the entries of its children under the prefix \<^verbatim>\<open>name.\<close>; the values
  share the storage of the model.
\<close>

fun state_dict_prefix :: "string \<Rightarrow> module \<Rightarrow> (string \<times> nat) list" where
  "state_dict_prefix prefix (Module n ps bs ms) =
     map (\<lambda>(k, v). (prefix @ k, v)) ps
     @ map (\<lambda>(k, persistent, v). (prefix @ k, v)) (filter (\<lambda>(k, persistent, v). persistent) bs)
     @ concat (map (\<lambda>c. state_dict_prefix (prefix @ registered_name c @ ''.'') c) ms)"

definition state_dict :: "module \<Rightarrow> (string \<times> nat) list" where
  "state_dict m = state_dict_prefix [] m"

text \<open>
  What identifies a buffer apart from its contents: its shape, its element type and the
  size of its storage in bytes.
\<close>

definition tensor_meta :: "memory \<Rightarrow> nat \<Rightarrow> nat list \<times> scalar_type \<times> nat" where
  "tensor_meta mem v = (shape (mem v), dtype (mem v), length (data (mem v)))"

text \<open>One process of the group: the model it built and its memory.\<close>

record peer =
  network :: module
  memory :: memory

section \<open>The MPI communicator, as one process sees it\<close>

text \<open>
  The collective calls a process has entered, in order, with what it passed: the object
  and root of \<^verbatim>\<open>comm.bcast\<close>, \<^verbatim>\<open>comm.Barrier\<close>, and for \<^verbatim>\<open>comm.Bcast\<close> the
  description and the contents of the buffer and the root.
\<close>

datatype call =
    bcast_call "string option" nat
  | Barrier_call
  | Bcast_call "nat list \<times> scalar_type \<times> nat" "byte list" nat

text \<open>
  \<^verbatim>\<open>comm.bcast(obj, root)\<close>. At the root the call returns the object passed. At any
  other rank it returns what the root sent, and does not return when the root never
  enters the call (\<open>delivered = None\<close>).
\<close>

definition comm_bcast ::
  "nat \<Rightarrow> string option \<Rightarrow> nat \<Rightarrow> string option option \<Rightarrow> call list
     \<Rightarrow> string option outcome \<times> call list" where
  "comm_bcast rank obj root delivered calls =
     (if rank = root then Returns obj
      else (case delivered of None \<Rightarrow> Blocks | Some x \<Rightarrow> Returns x),
      calls @ [bcast_call obj root])"

text \<open>
  \<^verbatim>\<open>comm.Barrier()\<close> returns once every process of the group has entered it
  (\<open>released\<close>).
\<close>

definition comm_Barrier :: "bool \<Rightarrow> call list \<Rightarrow> unit outcome \<times> call list" where
  "comm_Barrier released calls =
     (if released then Returns () else Blocks, calls @ [Barrier_call])"

text \<open>
  \<^verbatim>\<open>comm.Bcast(buf, root)\<close> on the buffer at address \<open>buf\<close>. The root sends the bytes
  of its buffer, which stay as they are. Any other rank blocks until the root's message
  arrives and receives it into its buffer in place; a message of another size than the
  buffer is an MPI error.
\<close>

definition comm_Bcast ::
  "nat \<Rightarrow> nat \<Rightarrow> nat \<Rightarrow> byte list option \<Rightarrow> memory \<times> call list
     \<Rightarrow> memory outcome \<times> call list" where
  "comm_Bcast rank buf root delivered st =
     (case st of (mem, calls) \<Rightarrow>
       (if rank = root then Returns mem
        else (case delivered of
                None \<Rightarrow> Blocks
              | Some payload \<Rightarrow>
                  if length payload = length (data (mem buf))
                  then Returns (mem(buf := (mem buf)\<lparr>data := payload\<rparr>))
                  else Raises MPI_ERR_TRUNCATE),
        calls @ [Bcast_call (tensor_meta mem buf) (data (mem buf)) root]))"

text \<open>What a process put on the wire as root: the contents of its \<^verbatim>\<open>Bcast\<close> buffers.\<close>

fun payloads :: "call list \<Rightarrow> byte list list" where
  "payloads [] = []"
| "payloads (Bcast_call m d r # cs) = d # payloads cs"
| "payloads (c # cs) = payloads cs"

fun sent_object :: "call list \<Rightarrow> string option option" where
  "sent_object [] = None"
| "sent_object (bcast_call obj r # cs) = Some obj"
| "sent_object (c # cs) = sent_object cs"

section \<open>Run identity (p2p.py, lines 42-60)\<close>

text \<open>
  \<^verbatim>\<open>os.path.join(a, *p)\<close> of \<^verbatim>\<open>posixpath\<close>: a component that starts with a slash
  replaces what came before it, otherwise it is appended after one separator.
\<close>

definition join_step :: "string \<Rightarrow> string \<Rightarrow> string" where
  "join_step path b =
     (if take 1 b = ''/'' then b
      else if path = [] \<or> last path = CHR ''/'' then path @ b
      else path @ ''/'' @ b)"

definition os_path_join :: "string \<Rightarrow> string list \<Rightarrow> string" where
  "os_path_join a p = foldl join_step a p"

text \<open>
  \<^verbatim>\<open>os.makedirs(name)\<close> with \<^verbatim>\<open>exist_ok\<close> left false, on a file system given by
  the directories that exist and whether the process may write: an existing target and
  a missing permission raise, otherwise the directory is created.
\<close>

record filesystem =
  directories :: "string list"
  writable :: bool

definition os_makedirs :: "string \<Rightarrow> filesystem \<Rightarrow> error + filesystem" where
  "os_makedirs name fs =
     (if name \<in> set (directories fs) then Inl FileExistsError
      else if \<not> writable fs then Inl PermissionError
      else Inr (fs\<lparr>directories := name # directories fs\<rparr>))"

record run_identity =
  the_timestamp :: "string option"
  the_log_id_dir :: "string option"

text \<open>
  Lines 42-60 of \<^verbatim>\<open>main\<close> at one rank. \<^verbatim>\<open>make_log_id_from_timestamp\<close> belongs to
  \<^verbatim>\<open>adept.utils.logging\<close> and is a parameter here; \<open>now\<close> is the string that
  \<^verbatim>\<open>datetime.now().strftime(...)\<close> gives at this process. The variable
  \<^verbatim>\<open>timestamp\<close> holds \<^verbatim>\<open>None\<close> or a string; \<^verbatim>\<open>log_id_dir\<close> is unbound
  (\<open>None\<close>) at a rank other than 0 until line 58. \<^verbatim>\<open>print_ascii_logo()\<close> only
  prints. The result is the outcome of the process at line 60, the collective calls it
  has entered and its file system.
\<close>

definition main_log_id_dir ::
  "(string \<Rightarrow> string \<Rightarrow> string \<Rightarrow> string \<Rightarrow> string option \<Rightarrow> string)
     \<Rightarrow> nat \<Rightarrow> args \<Rightarrow> string \<Rightarrow> filesystem \<Rightarrow> string option option \<Rightarrow> bool
     \<Rightarrow> run_identity outcome \<times> call list \<times> filesystem" where
  "main_log_id_dir make_log_id_from_timestamp rank a now fs delivered released =
     (case (if rank = 0 then
              (let timestamp = Some now;
                   log_id = make_log_id_from_timestamp (tag a) (mode_name a) (agent a)
                              (vision_network a @ network_body a) timestamp;
                   log_id_dir = os_path_join (log_dir a) [env_id a, log_id]
               in case os_makedirs log_id_dir fs of
                    Inl e \<Rightarrow> Inl e
                  | Inr fs' \<Rightarrow> Inr (timestamp, Some log_id_dir, fs'))
            else Inr (None, None, fs)) of
        Inl e \<Rightarrow> (Raises e, [], fs)
      | Inr (timestamp, log_id_dir, fs') \<Rightarrow>
          (case comm_bcast rank timestamp 0 delivered [] of
             (Raises e, calls) \<Rightarrow> (Raises e, calls, fs')
           | (Blocks, calls) \<Rightarrow> (Blocks, calls, fs')
           | (Returns timestamp, calls) \<Rightarrow>
               (let log_id_dir =
                      (if rank \<noteq> 0 then
                         (let log_id = make_log_id_from_timestamp (tag a) (mode_name a) (agent a)
                                         (vision_network a @ network_body a) timestamp
                          in Some (os_path_join (log_dir a) [env_id a, log_id]))
                       else log_id_dir)
                in case comm_Barrier released calls of
                     (Raises e, calls') \<Rightarrow> (Raises e, calls', fs')
                   | (Blocks, calls') \<Rightarrow> (Blocks, calls', fs')
                   | (Returns u, calls') \<Rightarrow>
                       (Returns \<lparr>the_timestamp = timestamp, the_log_id_dir = log_id_dir\<rparr>,
                        calls', fs'))))"

text \<open>
  The path that lines 44-47 and lines 55-58 compute from the arguments and a timestamp.
\<close>

definition log_id_dir_of ::
  "(string \<Rightarrow> string \<Rightarrow> string \<Rightarrow> string \<Rightarrow> string option \<Rightarrow> string)
     \<Rightarrow> args \<Rightarrow> string option \<Rightarrow> string" where
  "log_id_dir_of make_log_id_from_timestamp a timestamp =
     os_path_join (log_dir a)
       [env_id a,
        make_log_id_from_timestamp (tag a) (mode_name a) (agent a)
          (vision_network a @ network_body a) timestamp]"

text \<open>
  The group: process \<open>r\<close> of the list runs with rank \<open>r\<close>, its own arguments, clock
  and file system. What the root sent is read off the calls of rank 0, and the barrier
  releases when every process enters it.
\<close>

definition main_log_id_dir_group ::
  "(string \<Rightarrow> string \<Rightarrow> string \<Rightarrow> string \<Rightarrow> string option \<Rightarrow> string)
     \<Rightarrow> (args \<times> string \<times> filesystem) list
     \<Rightarrow> (run_identity outcome \<times> call list \<times> filesystem) list" where
  "main_log_id_dir_group mk procs =
     (let ranks = zip [0..<length procs] procs;
          delivered =
            (case procs of
               [] \<Rightarrow> None
             | (a, now, fs) # rest \<Rightarrow>
                 sent_object (fst (snd (main_log_id_dir mk 0 a now fs None False))));
          released =
            list_all (\<lambda>(rank, a, now, fs).
               Barrier_call \<in> set (fst (snd (main_log_id_dir mk rank a now fs delivered False))))
              ranks
      in map (\<lambda>(rank, a, now, fs). main_log_id_dir mk rank a now fs delivered released) ranks)"

section \<open>Initial parameter synchronisation (p2p.py, lines 73-84)\<close>

text \<open>
  \<^verbatim>\<open>v.detach().cpu().numpy()\<close> on the freshly built network, which lives on the CPU:
  an array on the same storage.
\<close>

definition detach_cpu_numpy :: "nat \<Rightarrow> nat" where
  "detach_cpu_numpy v = v"

text \<open>
  \<^verbatim>\<open>for v in variables: comm.Bcast(v, root=0)\<close>. The \<open>k\<close>-th call receives the
  \<open>k\<close>-th message the root sent; when the root sent fewer, nothing arrives.
\<close>

fun Bcast_loop ::
  "nat \<Rightarrow> byte list list \<Rightarrow> nat list \<Rightarrow> memory \<times> call list \<Rightarrow> memory outcome \<times> call list" where
  "Bcast_loop rank wire [] st = (Returns (fst st), snd st)"
| "Bcast_loop rank wire (v # vs) st =
     (case comm_Bcast rank v 0 (case wire of [] \<Rightarrow> None | d # ds \<Rightarrow> Some d) st of
        (Returns mem, calls) \<Rightarrow> Bcast_loop rank (tl wire) vs (mem, calls)
      | (Raises e, calls) \<Rightarrow> (Raises e, calls)
      | (Blocks, calls) \<Rightarrow> (Blocks, calls))"

text \<open>
  \<^verbatim>\<open>model_v.data.copy_(torch.from_numpy(shared_v), non_blocking=True)\<close>: the bytes of
  the source overwrite the storage of the destination, which keeps its shape and
  element type. The source is an array taken from the destination itself, so no
  conversion or broadcasting takes place.
\<close>

definition copy_from :: "memory \<Rightarrow> nat \<times> nat \<Rightarrow> memory" where
  "copy_from mem sd =
     (case sd of (shared_v, model_v) \<Rightarrow>
        mem(model_v := (mem model_v)\<lparr>data := data (mem shared_v)\<rparr>))"

text \<open>
  Lines 73-84 of \<^verbatim>\<open>main\<close> at one rank; \<open>wire\<close> is what rank 0 sent. The result is
  the outcome with the process state after line 84, and the collective calls entered.
\<close>

definition main_sync :: "byte list list \<Rightarrow> nat \<Rightarrow> peer \<Rightarrow> peer outcome \<times> call list" where
  "main_sync wire rank p =
     (if rank = 0 then
        (case Bcast_loop rank wire (map detach_cpu_numpy (parameters (network p)))
                (memory p, []) of
           (Returns mem, calls) \<Rightarrow> (Returns (p\<lparr>memory := mem\<rparr>), calls)
         | (Raises e, calls) \<Rightarrow> (Raises e, calls)
         | (Blocks, calls) \<Rightarrow> (Blocks, calls))
      else
        (let variables = map detach_cpu_numpy (parameters (network p))
         in case Bcast_loop rank wire variables (memory p, []) of
              (Returns mem, calls) \<Rightarrow>
                (Returns (p\<lparr>memory :=
                    foldl copy_from mem (zip variables (parameters (network p)))\<rparr>), calls)
            | (Raises e, calls) \<Rightarrow> (Raises e, calls)
            | (Blocks, calls) \<Rightarrow> (Blocks, calls)))"

text \<open>The group: the messages on the wire are those rank 0 sends.\<close>

definition main_sync_group :: "peer list \<Rightarrow> (peer outcome \<times> call list) list" where
  "main_sync_group peers =
     (let wire = (case peers of [] \<Rightarrow> [] | p0 # rest \<Rightarrow> payloads (snd (main_sync [] 0 p0)))
      in map (\<lambda>(rank, p). main_sync wire rank p) (zip [0..<length peers] peers))"

text \<open>The topology of a model as the protocol sees it: the description of each parameter.\<close>

definition parameters_meta :: "peer \<Rightarrow> (nat list \<times> scalar_type \<times> nat) list" where
  "parameters_meta p = map (tensor_meta (memory p)) (parameters (network p))"

definition parameters_data :: "peer \<Rightarrow> byte list list" where
  "parameters_data p = map (\<lambda>v. data (memory p v)) (parameters (network p))"

text \<open>A collective call without the contents passed to it.\<close>

fun call_meta :: "call \<Rightarrow> call" where
  "call_meta (Bcast_call m d r) = Bcast_call m [] r"
| "call_meta (bcast_call obj r) = bcast_call None r"
| "call_meta Barrier_call = Barrier_call"

section \<open>BaseNetwork.sync (network/base/base.py, lines 48-58)\<close>

text \<open>
  An operation issued through \<^verbatim>\<open>torch.distributed\<close>: the tensor it targets, the
  source rank and the group, the message of the source for it (\<open>None\<close> when the source
  never issues the matching operation), whether it has completed
  (\<^verbatim>\<open>is_completed()\<close>), and whether the process has called \<^verbatim>\<open>wait()\<close> on it. The
  handle that \<^verbatim>\<open>dist.broadcast\<close> returns is the position of the operation among
  those the process has issued.
\<close>

record work =
  buffer :: nat
  source :: nat
  grp_of :: nat
  arriving :: "byte list option"
  completed :: bool
  waited :: bool

record process = peer +
  works :: "work list"

text \<open>
  A message written into a tensor in place: the tensor keeps its shape, its element
  type and the size of its storage; a message of another size overwrites as far as both
  reach.
\<close>

definition receive :: "byte list \<Rightarrow> tensor \<Rightarrow> tensor" where
  "receive payload t =
     t\<lparr>data := take (length (data t)) (payload @ drop (length payload) (data t))\<rparr>"

text \<open>
  The backend completing operation \<open>h\<close>, which takes place in the background or inside
  \<^verbatim>\<open>wait()\<close>. At the source the tensor is left as it is; elsewhere the message of the
  source overwrites its storage, and without a message the operation stays pending.
\<close>

definition complete :: "nat \<Rightarrow> nat \<Rightarrow> process \<Rightarrow> process" where
  "complete rank h p =
     (let w = works p ! h
      in if completed w then p
         else if rank = source w
         then p\<lparr>works := (works p)[h := w\<lparr>completed := True\<rparr>]\<rparr>
         else (case arriving w of
                 None \<Rightarrow> p
               | Some payload \<Rightarrow>
                   p\<lparr>memory := (memory p)
                        (buffer w := receive payload (memory p (buffer w))),
                     works := (works p)[h := w\<lparr>completed := True\<rparr>]\<rparr>))"

text \<open>
  \<^verbatim>\<open>dist.broadcast(t, src, grp, True)\<close>, the asynchronous form, the only one
  \<^verbatim>\<open>sync\<close> calls: the operation is queued and its handle returned at once. The
  operation proceeds in the background; \<open>early\<close> tells whether the backend gets to it
  before the caller looks again.
\<close>

definition dist_broadcast ::
  "bool \<Rightarrow> byte list option \<Rightarrow> nat \<Rightarrow> nat \<Rightarrow> nat \<Rightarrow> nat \<Rightarrow> process \<Rightarrow> nat \<times> process" where
  "dist_broadcast early delivered rank t src grp p =
     (let h = length (works p);
          p1 = p\<lparr>works := works p @
                 [\<lparr>buffer = t, source = src, grp_of = grp, arriving = delivered,
                   completed = False, waited = False\<rparr>]\<rparr>
      in (h, if early then complete rank h p1 else p1))"

text \<open>
  \<^verbatim>\<open>h.wait()\<close>: blocks until the operation has completed and returns
  \<^verbatim>\<open>True\<close>. A handle is always one that \<^verbatim>\<open>dist.broadcast\<close> returned.
\<close>

definition wait :: "nat \<Rightarrow> nat \<Rightarrow> process \<Rightarrow> bool outcome \<times> process" where
  "wait rank h p =
     (if h < length (works p) then
        (let p1 = complete rank h p
         in if completed (works p1 ! h)
            then (Returns True,
                  p1\<lparr>works := (works p1)[h := (works p1 ! h)\<lparr>waited := True\<rparr>]\<rparr>)
            else (Blocks, p1))
      else (Raises RuntimeError, p))"

text \<open>
  \<^verbatim>\<open>for t in self.state_dict().values(): handles.append(dist.broadcast(t, src, grp, True))\<close>.
  The \<open>k\<close>-th operation is matched with the \<open>k\<close>-th message of the source, and the
  \<open>k\<close>-th entry of \<open>early\<close> tells whether it completes in the background before the
  loop goes on.
\<close>

fun broadcast_loop ::
  "bool list \<Rightarrow> byte list list \<Rightarrow> nat list \<Rightarrow> nat \<Rightarrow> nat \<Rightarrow> nat \<Rightarrow> nat list \<times> process
     \<Rightarrow> nat list \<times> process" where
  "broadcast_loop early wire [] rank src grp st = st"
| "broadcast_loop early wire (t # ts) rank src grp st =
     (case dist_broadcast (case early of [] \<Rightarrow> False | e # es \<Rightarrow> e)
             (case wire of [] \<Rightarrow> None | d # ds \<Rightarrow> Some d) rank t src grp (snd st) of
        (h, p') \<Rightarrow> broadcast_loop (tl early) (tl wire) ts rank src grp (fst st @ [h], p'))"

text \<open>\<^verbatim>\<open>[h.wait() for h in handles]\<close>\<close>

fun wait_loop :: "nat \<Rightarrow> nat list \<Rightarrow> process \<Rightarrow> bool list outcome \<times> process" where
  "wait_loop rank [] p = (Returns [], p)"
| "wait_loop rank (h # hs) p =
     (case wait rank h p of
        (Raises e, p') \<Rightarrow> (Raises e, p')
      | (Blocks, p') \<Rightarrow> (Blocks, p')
      | (Returns r, p') \<Rightarrow>
          (case wait_loop rank hs p' of
             (Raises e, p'') \<Rightarrow> (Raises e, p'')
           | (Blocks, p'') \<Rightarrow> (Blocks, p'')
           | (Returns rs, p'') \<Rightarrow> (Returns (r # rs), p'')))"

text \<open>
  The list \<^verbatim>\<open>sync\<close> returns holds the handles when \<^verbatim>\<open>async_op\<close> is true and
  the values of the \<^verbatim>\<open>wait()\<close> calls otherwise.
\<close>

datatype handle = Work nat | Waited bool

text \<open>
  \<^verbatim>\<open>BaseNetwork.sync(self, src, grp, async_op=False)\<close> in the process \<open>p\<close> that owns
  the network, whose rank in the group is \<open>rank\<close>; \<open>wire\<close> holds the messages of
  the source and \<open>early\<close> the progress of the backend. The result is the outcome of
  the call and the state of the process when the call returns, raises or blocks.
\<close>

definition sync ::
  "bool list \<Rightarrow> byte list list \<Rightarrow> nat \<Rightarrow> nat \<Rightarrow> nat \<Rightarrow> bool \<Rightarrow> process
     \<Rightarrow> handle list outcome \<times> process" where
  "sync early wire rank src grp async_op p =
     (case broadcast_loop early wire (map snd (state_dict (network p))) rank src grp ([], p) of
        (handles, p1) \<Rightarrow>
          if \<not> async_op then
            (case wait_loop rank handles p1 of
               (Raises e, p2) \<Rightarrow> (Raises e, p2)
             | (Blocks, p2) \<Rightarrow> (Blocks, p2)
             | (Returns rs, p2) \<Rightarrow> (Returns (map Waited rs), p2))
          else (Returns (map Work handles), p1))"

text \<open>The operations a call issued: those queued after the ones the process had before.\<close>

definition issued :: "process \<Rightarrow> process \<Rightarrow> work list" where
  "issued p p' = drop (length (works p)) (works p')"

text \<open>
  What a call leaves in place in a process: the model, the description of every tensor
  in memory, the operations issued with their targets, and the completion and the
  waiting that had taken place.
\<close>

definition kept :: "process \<Rightarrow> process \<Rightarrow> bool" where
  "kept p p' \<longleftrightarrow>
     network p' = network p \<and> tensor_meta (memory p') = tensor_meta (memory p)
     \<and> map buffer (works p') = map buffer (works p)
     \<and> map source (works p') = map source (works p)
     \<and> map grp_of (works p') = map grp_of (works p)
     \<and> (\<forall>i<length (works p). completed (works p ! i) \<longrightarrow> completed (works p' ! i))
     \<and> (\<forall>i<length (works p). waited (works p ! i) \<longrightarrow> waited (works p' ! i))"

text \<open>
  What issuing operations for the tensors \<open>ts\<close> adds to a process: one operation per
  tensor, in the order of the tensors.
\<close>

definition extended :: "process \<Rightarrow> nat list \<Rightarrow> nat \<Rightarrow> nat \<Rightarrow> process \<Rightarrow> bool" where
  "extended p ts src grp p' \<longleftrightarrow>
     network p' = network p \<and> tensor_meta (memory p') = tensor_meta (memory p)
     \<and> map buffer (works p') = map buffer (works p) @ ts
     \<and> map source (works p') = map source (works p) @ replicate (length ts) src
     \<and> map grp_of (works p') = map grp_of (works p) @ replicate (length ts) grp"

definition state_dict_meta :: "process \<Rightarrow> (string \<times> nat list \<times> scalar_type \<times> nat) list" where
  "state_dict_meta p = map (\<lambda>(k, v). (k, tensor_meta (memory p) v)) (state_dict (network p))"

definition work_meta :: "process \<Rightarrow> work \<Rightarrow> (nat list \<times> scalar_type \<times> nat) \<times> nat \<times> nat" where
  "work_meta p w = (tensor_meta (memory p) (buffer w), source w, grp_of w)"

section \<open>Model topology\<close>

text \<open>
  The tensors registered in a model: the parameters and the buffers of the module and
  of its children.
\<close>

fun registered :: "module \<Rightarrow> nat list" where
  "registered (Module n ps bs ms) =
     map snd ps @ map (\<lambda>(k, persistent, v). v) bs @ concat (map registered ms)"

text \<open>
  Two processes have built the same model topology when their models have the same
  modules, names and tensors and every tensor of the model has the same shape, element
  type and size in both; the contents may differ.
\<close>

definition same_topology :: "'a peer_scheme \<Rightarrow> 'b peer_scheme \<Rightarrow> bool" where
  "same_topology p1 p2 \<longleftrightarrow>
     network p1 = network p2
     \<and> (\<forall>v\<in>set (registered (network p1)).
           tensor_meta (memory p1) v = tensor_meta (memory p2) v)"

section \<open>Example inputs\<close>

text \<open>
  A batch normalisation layer: two trainable parameters and three persistent buffers,
  at the addresses 0 to 4.
\<close>

definition batch_norm :: module where
  "batch_norm =
     Module ''bn'' [(''weight'', 0), (''bias'', 1)]
       [(''running_mean'', True, 2), (''running_var'', True, 3),
        (''num_batches_tracked'', True, 4)] []"

text \<open>A network of one linear layer (addresses 10 and 11) followed by the layer above.\<close>

definition small_network :: module where
  "small_network =
     Module [] [] []
       [Module ''fc'' [(''weight'', 10), (''bias'', 11)] [] [], batch_norm]"

definition float_tensor :: "nat list \<Rightarrow> byte list \<Rightarrow> tensor" where
  "float_tensor s d = \<lparr>shape = s, dtype = float32, data = d\<rparr>"

text \<open>A memory that holds \<open>n\<close> floats of four bytes at every address, each byte \<open>b\<close>.\<close>

definition filled :: "nat \<Rightarrow> byte \<Rightarrow> memory" where
  "filled n b = (\<lambda>v. float_tensor [n] (replicate (4 * n) b))"

text \<open>A sample of what the log id could be made of, for the examples only.\<close>

definition sample_log_id ::
  "string \<Rightarrow> string \<Rightarrow> string \<Rightarrow> string \<Rightarrow> string option \<Rightarrow> string" where
  "sample_log_id tg md ag nt ts =
     tg @ ''_'' @ md @ ''_'' @ ag @ ''_'' @ nt @ ''_''
       @ (case ts of None \<Rightarrow> ''None'' | Some t \<Rightarrow> t)"

definition sample_args :: args where
  "sample_args =
     \<lparr>tag = ''run'', mode_name = ''P2P'', agent = ''ActorCritic'',
      vision_network = ''FourConv'', network_body = ''LSTM'', log_dir = ''/tmp/'',
      env_id = ''Pong'', seed = 42, nb_env = 32\<rparr>"

text \<open>A file system with nothing in it, and one where the log directory of the run exists.\<close>

definition fresh_fs :: filesystem where
  "fresh_fs = \<lparr>directories = [], writable = True\<rparr>"

definition used_fs :: filesystem where
  "used_fs =
     \<lparr>directories = [''/tmp/Pong/run_P2P_ActorCritic_FourConvLSTM_2018-11-03_10-00-00''],
      writable = True\<rparr>"

definition sample_now :: string where
  "sample_now = ''2018-11-03_10-00-00''"

text \<open>A process that holds the batch normalisation layer and has issued nothing yet.\<close>

definition sample_process :: "byte \<Rightarrow> process" where
  "sample_process b = \<lparr>network = batch_norm, memory = filled 1 b, works = []\<rparr>"

text \<open>
  A memory in which the tensor at address \<open>v\<close> holds \<open>v + 1\<close> bytes, each \<open>b\<close>, so
  that no two addresses have tensors of the same description.
\<close>

definition sized :: "byte \<Rightarrow> memory" where
  "sized b = (\<lambda>v. \<lparr>shape = [Suc v], dtype = uint8, data = replicate (Suc v) b\<rparr>)"

text \<open>The small network in such a memory, as a process of either kind.\<close>

definition network_peer :: "byte \<Rightarrow> peer" where
  "network_peer b = \<lparr>network = small_network, memory = sized b\<rparr>"

definition network_process :: "byte \<Rightarrow> process" where
  "network_process b = \<lparr>network = small_network, memory = sized b, works = []\<rparr>"

section \<open>Properties of the seed distribution\<close>

text \<open>
  C2. The seed of a rank is a function of the base seed, the number of environments and
  the rank alone: rank 0 keeps the base seed, and every rank \<open>r > 0\<close> gets
  \<open>seed + nb_env * (r - 1)\<close>.
\<close>

theorem main_seed_formula:
  "main_seed a 0 = seed a
   \<and> (\<forall>r. 0 < r \<longrightarrow> main_seed a r = seed a + nb_env a * (int r - 1))
   \<and> (\<forall>b r. seed b = seed a \<and> nb_env b = nb_env a \<longrightarrow> main_seed b r = main_seed a r)"
  by (simp add: main_seed_def)

theorem main_seed_formula_witness:
  "main_seed \<lparr>tag = ''t'', mode_name = ''P2P'', agent = ''ActorCritic'',
      vision_network = ''FourConv'', network_body = ''LSTM'', log_dir = ''/tmp/'',
      env_id = ''Pong'', seed = 42, nb_env = 32\<rparr> 3 = 106"
proof -
  let ?a = "\<lparr>tag = ''t'', mode_name = ''P2P'', agent = ''ActorCritic'',
      vision_network = ''FourConv'', network_body = ''LSTM'', log_dir = ''/tmp/'',
      env_id = ''Pong'', seed = 42, nb_env = 32\<rparr>"
  have "\<forall>r. 0 < r \<longrightarrow> main_seed ?a r = seed ?a + nb_env ?a * (int r - 1)"
    using main_seed_formula [of ?a] by (rule conjunct2 [THEN conjunct1])
  then have "main_seed ?a 3 = seed ?a + nb_env ?a * (int 3 - 1)"
    by (rule allE [where x = 3]) simp
  then show ?thesis by simp
qed

text \<open>
  C3. Scenario A: three processes, base seed 42. The code gives rank 1 the base seed
  itself and rank 2 the base seed plus \<open>nb_env\<close>, so the seeds of ranks 0, 1, 2 are
  \<open>42, 42, 42 + E\<close> for every offset \<open>E\<close>: ranks 0 and 1 share a seed, against
  the comment \<^verbatim>\<open>unique seed per process\<close> on that line.
\<close>

theorem scenario_A_seeds:
  "map (main_seed (a\<lparr>seed := 42, nb_env := E\<rparr>)) [0, 1, 2] = [42, 42, 42 + E]"
  by (simp add: main_seed_def)

text \<open>
  C4. With no environments per process the offsets vanish: ranks 1 and 2 then get the
  same seed.
\<close>

theorem seeds_collide_without_envs:
  "main_seed (sample_args\<lparr>nb_env := 0\<rparr>) 1 = main_seed (sample_args\<lparr>nb_env := 0\<rparr>) 2"
  by (simp add: main_seed_def sample_args_def)

text \<open>
  C4, amended. When \<open>nb_env\<close> is not zero, any two distinct ranks other than 0 get
  distinct seeds, for every base seed and every number of processes; rank 0 gets the
  base seed.
\<close>

theorem main_seed_distinct:
  assumes "nb_env a \<noteq> 0" and "0 < i" and "0 < j" and "i \<noteq> j"
  shows "main_seed a i \<noteq> main_seed a j \<and> main_seed a 0 = seed a"
  using assms by (auto simp add: main_seed_def)

theorem main_seed_distinct_witness:
  "main_seed sample_args 1 \<noteq> main_seed sample_args 2 \<and> main_seed sample_args 0 = 42"
proof -
  have "nb_env sample_args \<noteq> 0" by (simp add: sample_args_def)
  from main_seed_distinct [OF this, of 1 2] show ?thesis
    by (simp add: sample_args_def)
qed

section \<open>Enumeration of parameters and state\<close>

lemma skip_memo_set: "set (skip_memo memo vs) = set vs - set memo"
  by (induction vs arbitrary: memo) auto

lemma skip_memo_distinct: "distinct (skip_memo memo vs)"
  by (induction vs arbitrary: memo) (auto simp: skip_memo_set)

lemma distinct_parameters: "distinct (parameters m)"
  by (simp add: parameters_def skip_memo_distinct)

lemma skip_memo_length: "length (skip_memo memo vs) \<le> length vs"
  by (induction vs arbitrary: memo) (auto simp: le_SucI)

lemma concat_length_mono:
  "(\<And>x. x \<in> set xs \<Longrightarrow> length (f x) \<le> length (g x)) \<Longrightarrow>
   length (concat (map f xs)) \<le> length (concat (map g xs))"
  by (induction xs) (auto simp: add_mono)

lemma all_parameters_le: "length (all_parameters m) \<le> length (state_dict_prefix pre m)"
proof (induction m arbitrary: pre)
  case (Module n ps bs ms)
  have "length (concat (map all_parameters ms))
      \<le> length (concat (map (\<lambda>c. state_dict_prefix (pre @ registered_name c @ ''.'') c) ms))"
    by (rule concat_length_mono) (rule Module.IH)
  then show ?case by simp
qed

lemma parameters_le_state_dict: "length (parameters m) \<le> length (state_dict m)"
  unfolding parameters_def state_dict_def
  using skip_memo_length [of "[]" "all_parameters m"] all_parameters_le [of m "[]"]
  by (rule order_trans)

lemma parameters_small_network: "parameters small_network = [10, 11, 0, 1]"
  by (simp add: parameters_def batch_norm_def small_network_def)

section \<open>The initial synchronisation of the parameters\<close>

lemma Bcast_loop_root:
  "Bcast_loop 0 wire vs (mem, calls) =
     (Returns mem, calls @ map (\<lambda>v. Bcast_call (tensor_meta mem v) (data (mem v)) 0) vs)"
  by (induction vs arbitrary: wire calls) (simp_all add: comm_Bcast_def)

lemma payloads_Bcast_calls:
  "payloads (map (\<lambda>v. Bcast_call (f v) (g v) r) vs) = map g vs"
  by (induction vs) simp_all

lemma comm_Bcast_Returns:
  assumes "comm_Bcast rank buf root delivered (mem, calls) = (Returns mem', calls')"
  shows "tensor_meta mem' = tensor_meta mem"
    and "calls' = calls @ [Bcast_call (tensor_meta mem buf) (data (mem buf)) root]"
proof -
  from assms have
    "mem' = mem \<or> (\<exists>payload. length payload = length (data (mem buf))
        \<and> mem' = mem(buf := (mem buf)\<lparr>data := payload\<rparr>))"
    by (auto simp: comm_Bcast_def split: if_splits option.splits)
  then show "tensor_meta mem' = tensor_meta mem"
    by (auto simp: tensor_meta_def fun_eq_iff)
  from assms show "calls' = calls @ [Bcast_call (tensor_meta mem buf) (data (mem buf)) root]"
    by (simp add: comm_Bcast_def)
qed

lemma Bcast_loop_frame:
  assumes "Bcast_loop rank wire vs (mem, calls) = (Returns mem', calls')"
  shows "tensor_meta mem' = tensor_meta mem \<and>
         (\<exists>cs. calls' = calls @ cs \<and>
               map call_meta cs = map (\<lambda>v. Bcast_call (tensor_meta mem v) [] 0) vs)"
  using assms
proof (induction vs arbitrary: wire mem calls)
  case Nil
  then show ?case by simp
next
  case (Cons v vs)
  let ?d = "case wire of [] \<Rightarrow> None | d # ds \<Rightarrow> Some d"
  obtain out calls1 where step: "comm_Bcast rank v 0 ?d (mem, calls) = (out, calls1)"
    by (cases "comm_Bcast rank v 0 ?d (mem, calls)")
  with Cons.prems obtain mem1 where out: "out = Returns mem1"
    by (cases out) simp_all
  from step out have m1: "tensor_meta mem1 = tensor_meta mem"
    and c1: "calls1 = calls @ [Bcast_call (tensor_meta mem v) (data (mem v)) 0]"
    by (simp_all add: comm_Bcast_Returns)
  from Cons.prems step out
  have "Bcast_loop rank (tl wire) vs (mem1, calls1) = (Returns mem', calls')"
    by simp
  from Cons.IH [OF this] obtain cs where
    "tensor_meta mem' = tensor_meta mem1" "calls' = calls1 @ cs"
    "map call_meta cs = map (\<lambda>v. Bcast_call (tensor_meta mem1 v) [] 0) vs"
    by blast
  with m1 c1 show ?case by simp
qed

lemma Bcast_loop_recv:
  assumes "rank \<noteq> 0" and "distinct vs"
    and "list_all2 (\<lambda>d v. length d = length (data (mem v))) wire vs"
  shows "\<exists>mem' calls'. Bcast_loop rank wire vs (mem, calls) = (Returns mem', calls')
           \<and> map (\<lambda>v. data (mem' v)) vs = wire
           \<and> (\<forall>a. a \<notin> set vs \<longrightarrow> mem' a = mem a)"
  using assms(2,3)
proof (induction vs arbitrary: wire mem calls)
  case Nil
  then show ?case by simp
next
  case (Cons v vs)
  from Cons.prems(2) obtain d ds where wire: "wire = d # ds"
    and d: "length d = length (data (mem v))"
    and ds: "list_all2 (\<lambda>d v. length d = length (data (mem v))) ds vs"
    by (auto simp: list_all2_Cons2)
  let ?mem1 = "mem(v := (mem v)\<lparr>data := d\<rparr>)"
  let ?calls1 = "calls @ [Bcast_call (tensor_meta mem v) (data (mem v)) 0]"
  from Cons.prems(1) have nin: "v \<notin> set vs" and dist: "distinct vs" by simp_all
  from ds nin have "list_all2 (\<lambda>d u. length d = length (data (?mem1 u))) ds vs"
    by (auto simp: list_all2_conv_all_nth)
  from Cons.IH [OF dist this, of ?calls1] obtain mem' calls' where
    run: "Bcast_loop rank ds vs (?mem1, ?calls1) = (Returns mem', calls')"
    and got: "map (\<lambda>v. data (mem' v)) vs = ds"
    and rest: "\<forall>a. a \<notin> set vs \<longrightarrow> mem' a = ?mem1 a"
    by blast
  have "Bcast_loop rank wire (v # vs) (mem, calls) = (Returns mem', calls')"
    using assms(1) wire d run by (simp add: comm_Bcast_def)
  moreover from rest nin have "data (mem' v) = d" by simp
  moreover from rest have "\<forall>a. a \<notin> set (v # vs) \<longrightarrow> mem' a = mem a" by simp
  ultimately show ?case using got wire by simp
qed

lemma copy_from_self: "copy_from mem (v, v) = mem"
  by (simp add: copy_from_def)

lemma foldl_copy_from_self: "foldl copy_from mem (zip vs vs) = mem"
  by (induction vs) (simp_all add: copy_from_self)

lemma map_detach_cpu_numpy: "map detach_cpu_numpy vs = vs"
  by (induction vs) (simp_all add: detach_cpu_numpy_def)

lemma main_sync_root:
  "main_sync wire 0 p =
     (Returns p, map (\<lambda>v. Bcast_call (tensor_meta (memory p) v) (data (memory p v)) 0)
                   (parameters (network p)))"
  by (simp add: main_sync_def Bcast_loop_root map_detach_cpu_numpy)

lemma main_sync_recv:
  assumes "rank \<noteq> 0"
    and "list_all2 (\<lambda>d v. length d = length (data (memory p v))) wire (parameters (network p))"
  shows "\<exists>p' calls. main_sync wire rank p = (Returns p', calls)
           \<and> parameters_data p' = wire \<and> network p' = network p"
proof -
  from Bcast_loop_recv [OF assms(1) distinct_parameters assms(2), of "[]"]
  obtain mem' calls' where
    run: "Bcast_loop rank wire (parameters (network p)) (memory p, []) = (Returns mem', calls')"
    and got: "map (\<lambda>v. data (mem' v)) (parameters (network p)) = wire"
    by blast
  have "main_sync wire rank p = (Returns (p\<lparr>memory := mem'\<rparr>), calls')"
    using assms(1) run
    by (simp add: main_sync_def map_detach_cpu_numpy foldl_copy_from_self)
  with got show ?thesis by (simp add: parameters_data_def)
qed

lemma main_sync_frame:
  assumes "main_sync wire rank p = (Returns p', calls)"
  shows "network p' = network p \<and> tensor_meta (memory p') = tensor_meta (memory p)
         \<and> map call_meta calls
             = map (\<lambda>v. Bcast_call (tensor_meta (memory p) v) [] 0) (parameters (network p))"
proof -
  obtain out cs where
    run: "Bcast_loop rank wire (parameters (network p)) (memory p, []) = (out, cs)"
    by (cases "Bcast_loop rank wire (parameters (network p)) (memory p, [])")
  with assms obtain mem' where out: "out = Returns mem'"
    by (cases out) (simp_all add: main_sync_def map_detach_cpu_numpy split: if_splits)
  from assms run out have p': "p' = p\<lparr>memory := mem'\<rparr>" and c: "calls = cs"
    by (simp_all add: main_sync_def map_detach_cpu_numpy foldl_copy_from_self
        split: if_splits)
  from Bcast_loop_frame [OF run [unfolded out]] p' c show ?thesis by auto
qed

lemma main_sync_group_nth:
  assumes "r < length peers"
  shows "main_sync_group peers ! r
           = main_sync (parameters_data (peers ! 0)) r (peers ! r)"
proof -
  from assms obtain p0 rest where peers: "peers = p0 # rest"
    by (cases peers) simp_all
  have "payloads (snd (main_sync [] 0 p0)) = parameters_data p0"
    by (simp add: main_sync_root payloads_Bcast_calls parameters_data_def)
  with assms peers show ?thesis
    by (simp add: main_sync_group_def del: upt_Suc)
qed

lemma same_meta_sizes:
  assumes "parameters_meta p = parameters_meta p0"
  shows "list_all2 (\<lambda>d v. length d = length (data (memory p v)))
           (parameters_data p0) (parameters (network p))"
proof -
  let ?ps = "parameters (network p)" and ?qs = "parameters (network p0)"
  from assms have len: "length ?ps = length ?qs"
    unfolding parameters_meta_def by (rule map_eq_imp_length_eq)
  have "length (data (memory p0 (?qs ! i))) = length (data (memory p (?ps ! i)))"
    if "i < length ?ps" for i
  proof -
    from assms have "map (tensor_meta (memory p)) ?ps ! i = map (tensor_meta (memory p0)) ?qs ! i"
      by (simp add: parameters_meta_def)
    with that len show ?thesis by (simp add: tensor_meta_def)
  qed
  with len show ?thesis
    by (simp add: list_all2_conv_all_nth parameters_data_def)
qed

text \<open>
  C1. For a group of at least two processes that built the same model topology (the
  same number of parameters, each of the same shape, element type and size as at rank
  0), the synchronisation of lines 73-84 returns at every rank, leaves the model in
  place, and the contents of the parameters of every rank are then, position by
  position, those rank 0 had when it broadcast them.
\<close>

theorem initial_sync_converges:
  assumes "2 \<le> length peers"
    and "\<forall>r<length peers. parameters_meta (peers ! r) = parameters_meta (peers ! 0)"
  shows "\<forall>r<length peers. \<exists>p' calls.
           main_sync_group peers ! r = (Returns p', calls)
           \<and> network p' = network (peers ! r)
           \<and> parameters_data p' = parameters_data (peers ! 0)"
proof (intro allI impI)
  fix r assume r: "r < length peers"
  note nth = main_sync_group_nth [OF r]
  show "\<exists>p' calls. main_sync_group peers ! r = (Returns p', calls)
           \<and> network p' = network (peers ! r)
           \<and> parameters_data p' = parameters_data (peers ! 0)"
  proof (cases "r = 0")
    case True
    with nth show ?thesis by (simp add: main_sync_root)
  next
    case False
    from assms(2) r have "parameters_meta (peers ! r) = parameters_meta (peers ! 0)"
      by simp
    from main_sync_recv [OF False same_meta_sizes [OF this]] nth
    show ?thesis by auto
  qed
qed

theorem initial_sync_converges_witness:
  "\<exists>p' calls.
     main_sync_group
       [\<lparr>network = small_network, memory = filled 2 1\<rparr>,
        \<lparr>network = small_network, memory = filled 2 7\<rparr>,
        \<lparr>network = small_network, memory = filled 2 9\<rparr>] ! 2 = (Returns p', calls)
     \<and> parameters_data p' = replicate 4 (replicate 8 1)"
proof -
  let ?peers = "[\<lparr>network = small_network, memory = filled 2 1\<rparr>,
        \<lparr>network = small_network, memory = filled 2 7\<rparr>,
        \<lparr>network = small_network, memory = filled 2 9\<rparr>]"
  note ps = parameters_small_network
  have n: "2 \<le> length ?peers" by simp
  have meta: "parameters_meta (?peers ! r) = parameters_meta (?peers ! 0)" if "r < 3" for r
  proof -
    from that have "r = 0 \<or> r = 1 \<or> r = 2" by arith
    then show ?thesis
      by (auto simp: parameters_meta_def tensor_meta_def filled_def float_tensor_def ps)
  qed
  then have "\<forall>r<length ?peers. parameters_meta (?peers ! r) = parameters_meta (?peers ! 0)"
    by simp
  from initial_sync_converges [OF n this, rule_format, of 2]
  obtain p' calls where "main_sync_group ?peers ! 2 = (Returns p', calls)"
    and "parameters_data p' = parameters_data (?peers ! 0)"
    by auto
  moreover have "parameters_data (?peers ! 0) = replicate 4 (replicate 8 1)"
    by (simp add: parameters_data_def ps filled_def float_tensor_def numeral_eq_Suc)
  ultimately show ?thesis by metis
qed

section \<open>The run identity\<close>

lemma root_created:
  assumes "os_makedirs (log_id_dir_of mk a (Some now)) fs = Inr fs'"
  shows "main_log_id_dir mk 0 a now fs delivered released =
           (if released
            then Returns \<lparr>the_timestamp = Some now,
                          the_log_id_dir = Some (log_id_dir_of mk a (Some now))\<rparr>
            else Blocks,
            [bcast_call (Some now) 0, Barrier_call], fs')"
  using assms
  by (simp add: main_log_id_dir_def log_id_dir_of_def comm_bcast_def comm_Barrier_def Let_def)

lemma root_failed:
  assumes "os_makedirs (log_id_dir_of mk a (Some now)) fs = Inl e"
  shows "main_log_id_dir mk 0 a now fs delivered released = (Raises e, [], fs)"
  using assms
  by (simp add: main_log_id_dir_def log_id_dir_of_def Let_def)

lemma other_blocked:
  assumes "rank \<noteq> 0"
  shows "main_log_id_dir mk rank a now fs None released = (Blocks, [bcast_call None 0], fs)"
  using assms
  by (simp add: main_log_id_dir_def comm_bcast_def Let_def)

lemma other_delivered:
  assumes "rank \<noteq> 0"
  shows "main_log_id_dir mk rank a now fs (Some ts) released =
           (if released
            then Returns \<lparr>the_timestamp = ts, the_log_id_dir = Some (log_id_dir_of mk a ts)\<rparr>
            else Blocks,
            [bcast_call None 0, Barrier_call], fs)"
  using assms
  by (simp add: main_log_id_dir_def log_id_dir_of_def comm_bcast_def comm_Barrier_def Let_def)

lemma group_nth:
  assumes "r < length procs"
  shows "main_log_id_dir_group mk procs ! r =
     (let delivered =
            (case procs ! 0 of (a, now, fs) \<Rightarrow>
               sent_object (fst (snd (main_log_id_dir mk 0 a now fs None False))));
          released =
            (\<forall>k<length procs. case procs ! k of (a, now, fs) \<Rightarrow>
               Barrier_call \<in> set (fst (snd (main_log_id_dir mk k a now fs delivered False))))
      in case procs ! r of (a, now, fs) \<Rightarrow>
           main_log_id_dir mk r a now fs delivered released)"
proof -
  from assms obtain p0 rest where procs: "procs = p0 # rest"
    by (cases procs) simp_all
  obtain a0 now0 fs0 where p0: "p0 = (a0, now0, fs0)" by (cases p0)
  have rel: "list_all (\<lambda>(rank, a, now, fs). P rank a now fs) (zip [0..<length procs] procs)
        = (\<forall>k<length procs. case procs ! k of (a, now, fs) \<Rightarrow> P k a now fs)" for P
    by (auto simp: list_all_length split: prod.splits)
  show ?thesis
    using assms
    unfolding main_log_id_dir_group_def Let_def rel
    by (simp add: procs p0 del: upt_Suc split: prod.splits)
qed

text \<open>
  C5. When every process runs with the same arguments and rank 0 creates its directory,
  every rank leaves line 60 with the timestamp that rank 0 minted and with the same
  \<^verbatim>\<open>log_id_dir\<close>, the path computed from the shared arguments and that timestamp.
  The collective calls of each rank up to there are one \<^verbatim>\<open>bcast\<close> (of the
  timestamp) and the barrier: the path itself is never broadcast.
\<close>

theorem shared_timestamp_and_path:
  assumes "procs \<noteq> []" and "procs ! 0 = (a, now, fs)"
    and "\<forall>r<length procs. fst (procs ! r) = a"
    and "os_makedirs (log_id_dir_of mk a (Some now)) fs = Inr fs'"
  shows "\<forall>r<length procs.
           main_log_id_dir_group mk procs ! r =
             (Returns \<lparr>the_timestamp = Some now,
                       the_log_id_dir = Some (log_id_dir_of mk a (Some now))\<rparr>,
              [bcast_call (if r = 0 then Some now else None) 0, Barrier_call],
              if r = 0 then fs' else snd (snd (procs ! r)))"
proof -
  have delivered: "(case procs ! 0 of (a, now, fs) \<Rightarrow>
      sent_object (fst (snd (main_log_id_dir mk 0 a now fs None False)))) = Some (Some now)"
    using assms(2,4) by (simp add: root_created)
  have released: "\<forall>k<length procs. case procs ! k of (ak, nowk, fsk) \<Rightarrow>
      Barrier_call \<in> set (fst (snd (main_log_id_dir mk k ak nowk fsk (Some (Some now)) False)))"
  proof (intro allI impI)
    fix k assume "k < length procs"
    show "case procs ! k of (ak, nowk, fsk) \<Rightarrow>
      Barrier_call \<in> set (fst (snd (main_log_id_dir mk k ak nowk fsk (Some (Some now)) False)))"
    proof (cases "k = 0")
      case True
      with assms(2,4) show ?thesis by (simp add: root_created)
    next
      case False
      then show ?thesis by (simp add: other_delivered split: prod.splits)
    qed
  qed
  show ?thesis
  proof (intro allI impI)
    fix r assume r: "r < length procs"
    obtain ar nowr fsr where pr: "procs ! r = (ar, nowr, fsr)" by (cases "procs ! r")
    with assms(3) r have ar: "ar = a" by force
    show "main_log_id_dir_group mk procs ! r =
             (Returns \<lparr>the_timestamp = Some now,
                       the_log_id_dir = Some (log_id_dir_of mk a (Some now))\<rparr>,
              [bcast_call (if r = 0 then Some now else None) 0, Barrier_call],
              if r = 0 then fs' else snd (snd (procs ! r)))"
    proof (cases "r = 0")
      case True
      with assms(2,4) r delivered released show ?thesis
        by (simp add: group_nth root_created)
    next
      case False
      with r delivered released pr ar show ?thesis
        by (simp add: group_nth other_delivered)
    qed
  qed
qed

lemma sample_path:
  "log_id_dir_of sample_log_id sample_args (Some sample_now)
     = ''/tmp/Pong/run_P2P_ActorCritic_FourConvLSTM_2018-11-03_10-00-00''"
  by (simp add: log_id_dir_of_def sample_log_id_def sample_args_def sample_now_def
      os_path_join_def join_step_def)

theorem shared_timestamp_and_path_witness:
  "main_log_id_dir_group sample_log_id
     [(sample_args, sample_now, fresh_fs), (sample_args, ''2018-11-03_10-00-07'', used_fs)] ! 1
   = (Returns \<lparr>the_timestamp = Some sample_now,
        the_log_id_dir = Some ''/tmp/Pong/run_P2P_ActorCritic_FourConvLSTM_2018-11-03_10-00-00''\<rparr>,
      [bcast_call None 0, Barrier_call], used_fs)"
proof -
  let ?procs = "[(sample_args, sample_now, fresh_fs),
                 (sample_args, ''2018-11-03_10-00-07'', used_fs)]"
  have 1: "?procs \<noteq> []" by simp
  have 2: "?procs ! 0 = (sample_args, sample_now, fresh_fs)" by simp
  have 3: "\<forall>r<length ?procs. fst (?procs ! r) = sample_args"
    by (simp add: less_Suc_eq)
  have 4: "os_makedirs (log_id_dir_of sample_log_id sample_args (Some sample_now)) fresh_fs
             = Inr (fresh_fs\<lparr>directories :=
                 [''/tmp/Pong/run_P2P_ActorCritic_FourConvLSTM_2018-11-03_10-00-00'']\<rparr>)"
    by (simp add: sample_path os_makedirs_def fresh_fs_def)
  from shared_timestamp_and_path [OF 1 2 3 4, rule_format, of 1]
  show ?thesis by (simp add: sample_path)
qed

text \<open>
  C9. Two processes, the log directory of the run already there at rank 0: rank 0 raises
  \<^verbatim>\<open>FileExistsError\<close> before it enters the broadcast of the timestamp, and rank 1
  stays blocked in that broadcast; it derives no path and does not proceed.
\<close>

theorem others_blocked_counterexample:
  "main_log_id_dir_group sample_log_id
     [(sample_args, sample_now, used_fs), (sample_args, sample_now, fresh_fs)]
   = [(Raises FileExistsError, [], used_fs), (Blocks, [bcast_call None 0], fresh_fs)]"
proof -
  have "os_makedirs (log_id_dir_of sample_log_id sample_args (Some sample_now)) used_fs
          = Inl FileExistsError"
    by (simp add: sample_path os_makedirs_def used_fs_def)
  then show ?thesis
    by (simp add: main_log_id_dir_group_def root_failed other_blocked)
qed

text \<open>
  C9, amended. Only rank 0 attempts to create the log directory. When the creation
  fails, rank 0 raises the error before it has entered any collective call, and every
  rank above 0 stays blocked in the broadcast of the timestamp, its file system
  untouched. At a rank above 0 neither the outcome nor the calls depend on the file
  system, which is left as it is: the directory is neither created nor looked up.
\<close>

theorem creation_failure_blocks_others:
  assumes "procs \<noteq> []" and "procs ! 0 = (a, now, fs)"
    and "os_makedirs (log_id_dir_of mk a (Some now)) fs = Inl e"
  shows "main_log_id_dir_group mk procs ! 0 = (Raises e, [], fs)
       \<and> (\<forall>r. 0 < r \<and> r < length procs \<longrightarrow>
             main_log_id_dir_group mk procs ! r
               = (Blocks, [bcast_call None 0], snd (snd (procs ! r))))
       \<and> (\<forall>rank a' now' f1 f2 d rel. 0 < rank \<longrightarrow>
             fst (main_log_id_dir mk rank a' now' f1 d rel)
               = fst (main_log_id_dir mk rank a' now' f2 d rel)
             \<and> fst (snd (main_log_id_dir mk rank a' now' f1 d rel))
               = fst (snd (main_log_id_dir mk rank a' now' f2 d rel))
             \<and> snd (snd (main_log_id_dir mk rank a' now' f1 d rel)) = f1)"
proof (intro conjI allI impI)
  have delivered: "(case procs ! 0 of (a, now, fs) \<Rightarrow>
      sent_object (fst (snd (main_log_id_dir mk 0 a now fs None False)))) = None"
    using assms(2,3) by (simp add: root_failed)
  from assms show "main_log_id_dir_group mk procs ! 0 = (Raises e, [], fs)"
    by (simp add: group_nth root_failed)
  show "main_log_id_dir_group mk procs ! r
               = (Blocks, [bcast_call None 0], snd (snd (procs ! r)))"
    if "0 < r \<and> r < length procs" for r
    using that delivered by (simp add: group_nth other_blocked split: prod.splits)
  fix rank :: nat and a' now' f1 f2 d rel
  assume "0 < rank"
  then have r: "rank \<noteq> 0" by simp
  show "fst (main_log_id_dir mk rank a' now' f1 d rel)
               = fst (main_log_id_dir mk rank a' now' f2 d rel)"
    by (cases d) (simp_all add: other_blocked [OF r] other_delivered [OF r])
  show "fst (snd (main_log_id_dir mk rank a' now' f1 d rel))
               = fst (snd (main_log_id_dir mk rank a' now' f2 d rel))"
    by (cases d) (simp_all add: other_blocked [OF r] other_delivered [OF r])
  show "snd (snd (main_log_id_dir mk rank a' now' f1 d rel)) = f1"
    by (cases d) (simp_all add: other_blocked [OF r] other_delivered [OF r])
qed

theorem creation_failure_blocks_others_witness:
  "main_log_id_dir_group sample_log_id
     [(sample_args, sample_now, used_fs), (sample_args, sample_now, fresh_fs),
      (sample_args, sample_now, used_fs)] ! 2
   = (Blocks, [bcast_call None 0], used_fs)"
proof -
  let ?procs = "[(sample_args, sample_now, used_fs), (sample_args, sample_now, fresh_fs),
      (sample_args, sample_now, used_fs)]"
  have 1: "?procs \<noteq> []" by simp
  have 2: "?procs ! 0 = (sample_args, sample_now, used_fs)" by simp
  have 3: "os_makedirs (log_id_dir_of sample_log_id sample_args (Some sample_now)) used_fs
          = Inl FileExistsError"
    by (simp add: sample_path os_makedirs_def used_fs_def)
  from creation_failure_blocks_others [OF 1 2 3]
  have "\<forall>r. 0 < r \<and> r < length ?procs \<longrightarrow>
             main_log_id_dir_group sample_log_id ?procs ! r
               = (Blocks, [bcast_call None 0], snd (snd (?procs ! r)))"
    by (rule conjunct2 [THEN conjunct1])
  then have "0 < (2::nat) \<and> 2 < length ?procs \<longrightarrow>
             main_log_id_dir_group sample_log_id ?procs ! 2
               = (Blocks, [bcast_call None 0], snd (snd (?procs ! 2)))"
    by (rule spec)
  then show ?thesis by simp
qed

section \<open>The synchronisation entry point of the network\<close>

lemma receive_meta:
  "shape (receive payload t) = shape t" "dtype (receive payload t) = dtype t"
  "length (data (receive payload t)) = length (data t)"
  by (simp_all add: receive_def)

lemma tensor_meta_receive:
  "tensor_meta (mem(v := receive payload (mem v))) = tensor_meta mem"
  by (auto simp: tensor_meta_def fun_eq_iff receive_meta)

lemma map_update_same: "(map f xs)[h := f (xs ! h)] = map f xs"
  by (metis list_update_id map_update)

lemma nth_update_cases: "i < length xs \<Longrightarrow> xs[h := y] ! i = (if i = h then y else xs ! i)"
  by (cases "i = h") simp_all

lemma complete_cases:
  obtains (same) "complete rank h p = p"
    | (marked) "complete rank h p = p\<lparr>works := (works p)[h := (works p ! h)\<lparr>completed := True\<rparr>]\<rparr>"
    | (recv) payload where
        "complete rank h p =
           p\<lparr>memory := (memory p)(buffer (works p ! h) :=
                 receive payload (memory p (buffer (works p ! h)))),
             works := (works p)[h := (works p ! h)\<lparr>completed := True\<rparr>]\<rparr>"
proof (cases "completed (works p ! h)")
  case True
  then have "complete rank h p = p" by (simp add: complete_def)
  then show ?thesis by (rule same)
next
  case nc: False
  show ?thesis
  proof (cases "rank = source (works p ! h)")
    case True
    with nc have
      "complete rank h p = p\<lparr>works := (works p)[h := (works p ! h)\<lparr>completed := True\<rparr>]\<rparr>"
      by (simp add: complete_def Let_def)
    then show ?thesis by (rule marked)
  next
    case ns: False
    show ?thesis
    proof (cases "arriving (works p ! h)")
      case None
      with nc ns have "complete rank h p = p" by (simp add: complete_def Let_def)
      then show ?thesis by (rule same)
    next
      case (Some payload)
      with nc ns have "complete rank h p =
           p\<lparr>memory := (memory p)(buffer (works p ! h) :=
                 receive payload (memory p (buffer (works p ! h)))),
             works := (works p)[h := (works p ! h)\<lparr>completed := True\<rparr>]\<rparr>"
        by (simp add: complete_def Let_def)
      then show ?thesis by (rule recv)
    qed
  qed
qed

lemma kept_refl: "kept p p"
  by (simp add: kept_def)

lemma kept_length: "kept p p' \<Longrightarrow> length (works p') = length (works p)"
  unfolding kept_def by (metis length_map)

lemma kept_trans:
  assumes "kept p q" and "kept q r"
  shows "kept p r"
proof -
  from assms(1) have len: "length (works q) = length (works p)" by (rule kept_length)
  from assms len show ?thesis by (simp add: kept_def)
qed

lemma complete_kept: "kept p (complete rank h p)"
proof (cases rule: complete_cases [of rank h p])
  case same
  then show ?thesis by (simp add: kept_refl)
next
  case marked
  then show ?thesis by (auto simp: kept_def map_update map_update_same nth_update_cases)
next
  case (recv payload)
  then show ?thesis
    by (auto simp: kept_def map_update map_update_same nth_update_cases tensor_meta_receive)
qed

lemma complete_waited: "map waited (works (complete rank h p)) = map waited (works p)"
  by (cases rule: complete_cases [of rank h p]) (simp_all add: map_update map_update_same)

lemma wait_kept:
  assumes "wait rank h p = (out, p')"
  shows "kept p p'"
proof (cases "h < length (works p)")
  case False
  with assms show ?thesis by (simp add: wait_def kept_refl)
next
  case True
  let ?p1 = "complete rank h p"
  have k1: "kept p ?p1" by (rule complete_kept)
  show ?thesis
  proof (cases "completed (works ?p1 ! h)")
    case False
    with assms True have "p' = ?p1" by (simp add: wait_def Let_def)
    with k1 show ?thesis by simp
  next
    case c: True
    with assms True have
      p': "p' = ?p1\<lparr>works := (works ?p1)[h := (works ?p1 ! h)\<lparr>waited := True\<rparr>]\<rparr>"
      by (simp add: wait_def Let_def)
    have "kept ?p1 p'" unfolding p'
      by (auto simp: kept_def map_update map_update_same nth_update_cases)
    with k1 show ?thesis by (rule kept_trans)
  qed
qed

lemma wait_Returns:
  assumes "wait rank h p = (Returns r, p')"
  shows "r \<and> h < length (works p) \<and> completed (works p' ! h) \<and> waited (works p' ! h)"
proof -
  from assms have h: "h < length (works p)"
    by (auto simp: wait_def split: if_splits)
  let ?p1 = "complete rank h p"
  from complete_kept [THEN kept_length, of rank h p] h
  have h1: "h < length (works ?p1)" by simp
  from assms h have c: "completed (works ?p1 ! h)"
    by (auto simp: wait_def Let_def split: if_splits)
  with assms h have r: "r"
    and p': "p' = ?p1\<lparr>works := (works ?p1)[h := (works ?p1 ! h)\<lparr>waited := True\<rparr>]\<rparr>"
    by (simp_all add: wait_def Let_def)
  from p' h1 c have "completed (works p' ! h)" "waited (works p' ! h)" by simp_all
  with r h show ?thesis by simp
qed

lemma wait_loop_kept:
  assumes "wait_loop rank hs p = (out, p')"
  shows "kept p p'"
  using assms
proof (induction hs arbitrary: p out p')
  case Nil
  then show ?case by (simp add: kept_refl)
next
  case (Cons h hs)
  obtain o1 p1 where w: "wait rank h p = (o1, p1)" by (cases "wait rank h p")
  then have k1: "kept p p1" by (rule wait_kept)
  show ?case
  proof (cases o1)
    case (Returns r)
    obtain o2 p2 where l: "wait_loop rank hs p1 = (o2, p2)" by (cases "wait_loop rank hs p1")
    then have "kept p1 p2" by (rule Cons.IH)
    with k1 have "kept p p2" by (rule kept_trans)
    moreover from Cons.prems w Returns l have "p' = p2" by (cases o2) simp_all
    ultimately show ?thesis by simp
  next
    case (Raises e)
    with Cons.prems w k1 show ?thesis by simp
  next
    case Blocks
    with Cons.prems w k1 show ?thesis by simp
  qed
qed

lemma wait_loop_Returns:
  assumes "wait_loop rank hs p = (Returns rs, p')"
  shows "rs = replicate (length hs) True
       \<and> (\<forall>h\<in>set hs. h < length (works p)
             \<and> completed (works p' ! h) \<and> waited (works p' ! h))"
  using assms
proof (induction hs arbitrary: p rs p')
  case Nil
  then show ?case by simp
next
  case (Cons h hs)
  obtain o1 p1 where w: "wait rank h p = (o1, p1)" by (cases "wait rank h p")
  with Cons.prems obtain r where o1: "o1 = Returns r" by (cases o1) simp_all
  obtain o2 p2 where l: "wait_loop rank hs p1 = (o2, p2)" by (cases "wait_loop rank hs p1")
  with Cons.prems w o1 obtain rs' where o2: "o2 = Returns rs'" by (cases o2) simp_all
  from Cons.prems w o1 l o2 have rs: "rs = r # rs'" and p': "p' = p2" by simp_all
  from wait_Returns [OF w [unfolded o1]]
  have first: "r" "h < length (works p)" "completed (works p1 ! h)" "waited (works p1 ! h)"
    by simp_all
  from w have k1: "kept p p1" by (rule wait_kept)
  then have len: "length (works p1) = length (works p)" by (rule kept_length)
  from l have k2: "kept p1 p2" by (rule wait_loop_kept)
  from Cons.IH [OF l [unfolded o2]] have
    ih: "rs' = replicate (length hs) True"
        "\<forall>h\<in>set hs. h < length (works p1)
             \<and> completed (works p2 ! h) \<and> waited (works p2 ! h)"
    by simp_all
  from k2 first len have "completed (works p2 ! h)" "waited (works p2 ! h)"
    by (simp_all add: kept_def)
  with ih first rs p' len show ?case by simp
qed

lemma extended_Nil: "extended p [] src grp p"
  by (simp add: extended_def)

lemma extended_kept:
  assumes "extended p ts src grp q" and "kept q r"
  shows "extended p ts src grp r"
  using assms by (simp add: extended_def kept_def)

lemma extended_Cons:
  assumes "extended p [t] src grp q" and "extended q ts src grp r"
  shows "extended p (t # ts) src grp r"
  using assms by (simp add: extended_def replicate_app_Cons_same)

lemma dist_broadcast_extended:
  assumes "dist_broadcast early delivered rank t src grp p = (h, p')"
  shows "h = length (works p)" and "extended p [t] src grp p'"
    and "map waited (works p') = map waited (works p) @ [False]"
proof -
  let ?p1 = "p\<lparr>works := works p @
                 [\<lparr>buffer = t, source = src, grp_of = grp, arriving = delivered,
                   completed = False, waited = False\<rparr>]\<rparr>"
  from assms show "h = length (works p)" by (simp add: dist_broadcast_def Let_def)
  from assms have p': "p' = (if early then complete rank (length (works p)) ?p1 else ?p1)"
    by (simp add: dist_broadcast_def Let_def)
  have e1: "extended p [t] src grp ?p1" by (simp add: extended_def)
  have "kept ?p1 p'" unfolding p' by (simp add: complete_kept kept_refl)
  with e1 show "extended p [t] src grp p'" by (rule extended_kept)
  show "map waited (works p') = map waited (works p) @ [False]"
    unfolding p' by (simp add: complete_waited)
qed

lemma upt_shift: "[n..<n + Suc k] = n # [Suc n..<Suc n + k]"
  by (simp add: upt_conv_Cons)

lemma broadcast_loop_extended:
  assumes "broadcast_loop early wire ts rank src grp (hs, p) = (hs', p')"
  shows "hs' = hs @ [length (works p)..<length (works p) + length ts]
       \<and> extended p ts src grp p'
       \<and> map waited (works p') = map waited (works p) @ replicate (length ts) False"
  using assms
proof (induction ts arbitrary: early wire hs p)
  case Nil
  then show ?case by (simp add: extended_Nil)
next
  case (Cons t ts)
  let ?e = "case early of [] \<Rightarrow> False | e # es \<Rightarrow> e"
  let ?d = "case wire of [] \<Rightarrow> None | d # ds \<Rightarrow> Some d"
  obtain h p1 where step: "dist_broadcast ?e ?d rank t src grp p = (h, p1)"
    by (cases "dist_broadcast ?e ?d rank t src grp p")
  note d = dist_broadcast_extended [OF step]
  from d(2) have len: "length (works p1) = Suc (length (works p))"
    unfolding extended_def by (metis length_append_singleton length_map)
  from Cons.prems step
  have "broadcast_loop (tl early) (tl wire) ts rank src grp (hs @ [h], p1) = (hs', p')"
    by simp
  from Cons.IH [OF this] have
    hs': "hs' = (hs @ [h]) @ [length (works p1)..<length (works p1) + length ts]"
    and e: "extended p1 ts src grp p'"
    and w: "map waited (works p') = map waited (works p1) @ replicate (length ts) False"
    by simp_all
  have "[length (works p)..<length (works p) + length (t # ts)]
      = length (works p) # [Suc (length (works p))..<Suc (length (works p)) + length ts]"
    using upt_shift [of "length (works p)" "length ts"] by simp
  with hs' d(1) len
  have 1: "hs' = hs @ [length (works p)..<length (works p) + length (t # ts)]" by simp
  from d(2) e have 2: "extended p (t # ts) src grp p'" by (rule extended_Cons)
  from w d(3) have 3: "map waited (works p')
      = map waited (works p) @ replicate (length (t # ts)) False" by simp
  from 1 2 3 show ?case by simp
qed

lemma sync_cases:
  assumes "sync early wire rank src grp async_op p = (out, p')"
  obtains p1 where
    "extended p (map snd (state_dict (network p))) src grp p1"
    "map waited (works p1) = map waited (works p)
       @ replicate (length (state_dict (network p))) False"
    "async_op \<Longrightarrow> p' = p1 \<and> out = Returns (map Work
       [length (works p)..<length (works p) + length (state_dict (network p))])"
    "\<not> async_op \<Longrightarrow> \<exists>o2. wait_loop rank
         [length (works p)..<length (works p) + length (state_dict (network p))] p1 = (o2, p')
       \<and> out = (case o2 of Returns rs \<Rightarrow> Returns (map Waited rs)
                  | Raises e \<Rightarrow> Raises e | Blocks \<Rightarrow> Blocks)"
proof -
  let ?ts = "map snd (state_dict (network p))"
  obtain hs p1 where loop: "broadcast_loop early wire ?ts rank src grp ([], p) = (hs, p1)"
    by (cases "broadcast_loop early wire ?ts rank src grp ([], p)")
  from broadcast_loop_extended [OF loop] have
    hs: "hs = [length (works p)..<length (works p) + length (state_dict (network p))]"
    and e: "extended p ?ts src grp p1"
    and w: "map waited (works p1) = map waited (works p)
       @ replicate (length (state_dict (network p))) False"
    by simp_all
  have a: "p' = p1 \<and> out = Returns (map Work
       [length (works p)..<length (works p) + length (state_dict (network p))])"
    if "async_op"
    using that assms loop hs by (simp add: sync_def)
  have b: "\<exists>o2. wait_loop rank
         [length (works p)..<length (works p) + length (state_dict (network p))] p1 = (o2, p')
       \<and> out = (case o2 of Returns rs \<Rightarrow> Returns (map Waited rs)
                  | Raises e \<Rightarrow> Raises e | Blocks \<Rightarrow> Blocks)"
    if na: "\<not> async_op"
  proof -
    obtain o2 p2 where wl: "wait_loop rank hs p1 = (o2, p2)"
      by (cases "wait_loop rank hs p1")
    with assms loop na have "p' = p2 \<and> out = (case o2 of Returns rs \<Rightarrow> Returns (map Waited rs)
                  | Raises e \<Rightarrow> Raises e | Blocks \<Rightarrow> Blocks)"
      by (cases o2) (simp_all add: sync_def)
    with wl hs show ?thesis by simp
  qed
  from e w a b show ?thesis by (rule that)
qed

lemma sync_extended:
  assumes "sync early wire rank src grp async_op p = (out, p')"
  shows "extended p (map snd (state_dict (network p))) src grp p'"
  using assms
proof (cases rule: sync_cases)
  case (1 p1)
  show ?thesis
  proof (cases async_op)
    case True
    with 1 show ?thesis by simp
  next
    case False
    with 1(4) obtain o2 where "wait_loop rank
         [length (works p)..<length (works p) + length (state_dict (network p))] p1 = (o2, p')"
      by blast
    then have "kept p1 p'" by (rule wait_loop_kept)
    with 1(1) show ?thesis by (rule extended_kept)
  qed
qed

lemma sync_frame:
  assumes "sync early wire rank src grp async_op p = (out, p')"
  shows "network p' = network p" and "tensor_meta (memory p') = tensor_meta (memory p)"
    and "length (issued p p') = length (state_dict (network p))"
    and "map buffer (issued p p') = map snd (state_dict (network p))"
    and "map source (issued p p') = replicate (length (state_dict (network p))) src"
    and "map grp_of (issued p p') = replicate (length (state_dict (network p))) grp"
proof -
  from assms have e: "extended p (map snd (state_dict (network p))) src grp p'"
    by (rule sync_extended)
  then show "network p' = network p" and "tensor_meta (memory p') = tensor_meta (memory p)"
    by (simp_all add: extended_def)
  have d: "map f (issued p p') = drop (length (map f (works p))) (map f (works p'))" for f
    by (simp add: issued_def drop_map)
  from e show buf: "map buffer (issued p p') = map snd (state_dict (network p))"
    unfolding d [of buffer] by (simp add: extended_def)
  then have "length (map buffer (issued p p')) = length (map snd (state_dict (network p)))"
    by simp
  then show "length (issued p p') = length (state_dict (network p))" by simp
  from e show "map source (issued p p') = replicate (length (state_dict (network p))) src"
    unfolding d [of source] by (simp add: extended_def)
  from e show "map grp_of (issued p p') = replicate (length (state_dict (network p))) grp"
    unfolding d [of grp_of] by (simp add: extended_def)
qed

lemma tensor_meta_pointwise:
  assumes "tensor_meta m' = tensor_meta m"
  shows "shape (m' v) = shape (m v) \<and> dtype (m' v) = dtype (m v)
         \<and> length (data (m' v)) = length (data (m v))"
proof -
  from assms have "tensor_meta m' v = tensor_meta m v" by simp
  then show ?thesis by (simp add: tensor_meta_def)
qed

lemma issued_all:
  assumes "length (works p') = length (works p) + k"
    and "\<forall>h\<in>set [length (works p)..<length (works p) + k]. P (works p' ! h)"
  shows "\<forall>w\<in>set (issued p p'). P w"
proof
  fix w assume "w \<in> set (issued p p')"
  then obtain i where i: "i < length (issued p p')" and w: "w = issued p p' ! i"
    by (auto simp: in_set_conv_nth)
  from i assms(1) have "i < k" by (simp add: issued_def)
  with assms(2) have "P (works p' ! (length (works p) + i))" by simp
  moreover from i w assms(1) have "w = works p' ! (length (works p) + i)"
    by (simp add: issued_def)
  ultimately show "P w" by simp
qed

text \<open>
  C7. Called with \<^verbatim>\<open>async_op\<close> true, \<^verbatim>\<open>sync\<close> returns, whatever has arrived, the
  handles of the operations it issued, one per entry of the state dictionary and in that
  order, and it has called \<^verbatim>\<open>wait()\<close> on none of them; the operations may or may
  not have completed in the background by then. Called with \<^verbatim>\<open>async_op\<close> false,
  when it returns, it has waited on every operation it issued and each has completed,
  and the list returned holds the value of each \<^verbatim>\<open>wait()\<close>.
\<close>

theorem sync_handles:
  "fst (sync early wire rank src grp True p)
     = Returns (map Work [length (works p)..<
                  length (works p) + length (state_dict (network p))])
   \<and> length (issued p (snd (sync early wire rank src grp True p)))
       = length (state_dict (network p))
   \<and> (\<forall>w\<in>set (issued p (snd (sync early wire rank src grp True p))). \<not> waited w)
   \<and> (\<forall>hs p'. sync early wire rank src grp False p = (Returns hs, p') \<longrightarrow>
         hs = replicate (length (state_dict (network p))) (Waited True)
         \<and> length (issued p p') = length (state_dict (network p))
         \<and> (\<forall>w\<in>set (issued p p'). waited w \<and> completed w))"
proof (intro conjI allI impI)
  let ?k = "length (state_dict (network p))"
  let ?n = "length (works p)"
  obtain out pa where run: "sync early wire rank src grp True p = (out, pa)"
    by (cases "sync early wire rank src grp True p")
  from run obtain p1 where
    w1: "map waited (works p1) = map waited (works p) @ replicate ?k False"
    and a: "pa = p1 \<and> out = Returns (map Work [?n..<?n + ?k])"
    by (cases rule: sync_cases) simp
  from run a show "fst (sync early wire rank src grp True p)
     = Returns (map Work [?n..<?n + ?k])" by simp
  from sync_frame(3) [OF run] run
  show "length (issued p (snd (sync early wire rank src grp True p))) = ?k" by simp
  have "map waited (issued p pa) = drop (length (map waited (works p))) (map waited (works pa))"
    by (simp add: issued_def drop_map)
  with w1 a have nw: "map waited (issued p pa) = replicate ?k False" by simp
  have "\<forall>w\<in>set (issued p pa). \<not> waited w"
  proof
    fix w assume "w \<in> set (issued p pa)"
    then have "waited w \<in> set (map waited (issued p pa))" by simp
    with nw have "waited w \<in> set (replicate ?k False)" by simp
    then show "\<not> waited w" by simp
  qed
  with run show "\<forall>w\<in>set (issued p (snd (sync early wire rank src grp True p))). \<not> waited w"
    by simp
next
  let ?k = "length (state_dict (network p))"
  let ?n = "length (works p)"
  fix hs p' assume run: "sync early wire rank src grp False p = (Returns hs, p')"
  from run obtain p1 o2 where
    w: "wait_loop rank [?n..<?n + ?k] p1 = (o2, p')"
    and o: "Returns hs = (case o2 of Returns rs \<Rightarrow> Returns (map Waited rs)
                   | Raises e \<Rightarrow> Raises e | Blocks \<Rightarrow> Blocks)"
    by (cases rule: sync_cases) auto
  from o obtain rs where o2: "o2 = Returns rs" and hs: "hs = map Waited rs"
    by (cases o2) simp_all
  from wait_loop_Returns [OF w [unfolded o2]] have
    rs: "rs = replicate ?k True"
    and all: "\<forall>h\<in>set [?n..<?n + ?k]. waited (works p' ! h) \<and> completed (works p' ! h)"
    by auto
  from hs rs show "hs = replicate ?k (Waited True)" by simp
  from run show len: "length (issued p p') = ?k" by (rule sync_frame)
  then have "length (works p') - ?n = ?k" by (simp add: issued_def)
  moreover from len have "?k = 0 \<or> ?n \<le> length (works p')" by (auto simp: issued_def)
  ultimately have "?k = 0 \<or> length (works p') = ?n + ?k" by arith
  then show "\<forall>w\<in>set (issued p p'). waited w \<and> completed w"
  proof
    assume "?k = 0"
    with len show ?thesis by simp
  next
    assume "length (works p') = ?n + ?k"
    from issued_all [OF this, of "\<lambda>w. waited w \<and> completed w"] all show ?thesis by simp
  qed
qed

lemma state_dict_batch_norm:
  "state_dict batch_norm =
     [(''weight'', 0), (''bias'', 1), (''running_mean'', 2), (''running_var'', 3),
      (''num_batches_tracked'', 4)]"
  by (simp add: state_dict_def batch_norm_def)

lemma sample_sync_blocking:
  "\<exists>hs p'. sync [True, True, True, True, False] (replicate 5 (replicate 4 9)) 1 0 0 False
       (sample_process 0) = (Returns hs, p')"
  by (simp add: sync_def sample_process_def state_dict_batch_norm dist_broadcast_def
      complete_def wait_def receive_def filled_def float_tensor_def numeral_eq_Suc Let_def)

lemma sample_sync_async:
  "map completed (works (snd (sync [True, True, True, True, False]
       (replicate 5 (replicate 4 9)) 1 0 0 True (sample_process 0))))
     = [True, True, True, True, False]
   \<and> data (memory (snd (sync [True, True, True, True, False]
       (replicate 5 (replicate 4 9)) 1 0 0 True (sample_process 0))) 0) = [9, 9, 9, 9]
   \<and> map waited (works (snd (sync [True, True, True, True, False]
       (replicate 5 (replicate 4 9)) 1 0 0 True (sample_process 0))))
     = [False, False, False, False, False]"
  by (simp add: sync_def sample_process_def state_dict_batch_norm dist_broadcast_def
      complete_def receive_def filled_def float_tensor_def numeral_eq_Suc Let_def)

lemma upt_five: "[0..<5] = [0, 1, 2, 3, 4]"
  by (simp add: numeral_eq_Suc)

theorem sync_handles_witness:
  "fst (sync [True, True, True, True, False] (replicate 5 (replicate 4 9)) 1 0 0 True
          (sample_process 0))
     = Returns [Work 0, Work 1, Work 2, Work 3, Work 4]
   \<and> map completed (works (snd (sync [True, True, True, True, False]
         (replicate 5 (replicate 4 9)) 1 0 0 True (sample_process 0))))
     = [True, True, True, True, False]
   \<and> data (memory (snd (sync [True, True, True, True, False]
         (replicate 5 (replicate 4 9)) 1 0 0 True (sample_process 0))) 0) = [9, 9, 9, 9]
   \<and> map waited (works (snd (sync [True, True, True, True, False]
         (replicate 5 (replicate 4 9)) 1 0 0 True (sample_process 0))))
     = [False, False, False, False, False]
   \<and> fst (sync [True, True, True, True, False] (replicate 5 (replicate 4 9)) 1 0 0 False
          (sample_process 0))
     = Returns (replicate 5 (Waited True))"
proof -
  let ?e = "[True, True, True, True, False]"
  let ?w = "replicate 5 (replicate 4 9) :: byte list list"
  note inst = sync_handles [of ?e ?w 1 0 0 "sample_process 0"]
  have k: "length (state_dict (network (sample_process 0))) = 5"
    by (simp add: sample_process_def state_dict_batch_norm)
  have n: "length (works (sample_process 0)) = 0"
    by (simp add: sample_process_def)
  from inst have "fst (sync ?e ?w 1 0 0 True (sample_process 0))
     = Returns (map Work [length (works (sample_process 0))..<
                  length (works (sample_process 0))
                    + length (state_dict (network (sample_process 0)))])"
    by (rule conjunct1)
  then have 1: "fst (sync ?e ?w 1 0 0 True (sample_process 0))
     = Returns [Work 0, Work 1, Work 2, Work 3, Work 4]"
    by (simp add: k n upt_five)
  note 2 = sample_sync_async [THEN conjunct1]
  note 3 = sample_sync_async [THEN conjunct2, THEN conjunct1]
  note 4 = sample_sync_async [THEN conjunct2, THEN conjunct2]
  from sample_sync_blocking obtain hs p' where
    run: "sync ?e ?w 1 0 0 False (sample_process 0) = (Returns hs, p')" by blast
  from inst [THEN conjunct2, THEN conjunct2, THEN conjunct2, rule_format, OF run]
  have "hs = replicate (length (state_dict (network (sample_process 0)))) (Waited True)"
    by (rule conjunct1)
  with run k have 5: "fst (sync ?e ?w 1 0 0 False (sample_process 0))
     = Returns (replicate 5 (Waited True))" by simp
  from 1 2 3 4 5 show ?thesis by (intro conjI)
qed

text \<open>
  C8. A synchronisation overwrites contents only. When the parameter synchronisation of
  lines 73-84 returns, and whenever \<^verbatim>\<open>BaseNetwork.sync\<close> returns, raises or blocks,
  the model of the process is the one it was, so that its parameters and the entries of
  its state dictionary are the same, in the same order, and every tensor in memory has
  kept its shape and element type.
\<close>

theorem sync_overwrites_in_place:
  "(main_sync wire rank p = (Returns p', calls) \<longrightarrow>
      network p' = network p \<and> parameters_meta p' = parameters_meta p
      \<and> (\<forall>v. shape (memory p' v) = shape (memory p v)
               \<and> dtype (memory p' v) = dtype (memory p v)))
   \<and> (sync early wire' rank' src grp async_op q = (out, q') \<longrightarrow>
      network q' = network q \<and> state_dict_meta q' = state_dict_meta q
      \<and> (\<forall>v. shape (memory q' v) = shape (memory q v)
               \<and> dtype (memory q' v) = dtype (memory q v)))"
proof (intro conjI impI)
  assume "main_sync wire rank p = (Returns p', calls)"
  from main_sync_frame [OF this] have n: "network p' = network p"
    and m: "tensor_meta (memory p') = tensor_meta (memory p)" by simp_all
  from n show "network p' = network p" .
  from n m show "parameters_meta p' = parameters_meta p" by (simp add: parameters_meta_def)
  from tensor_meta_pointwise [OF m]
  show "\<forall>v. shape (memory p' v) = shape (memory p v)
               \<and> dtype (memory p' v) = dtype (memory p v)"
    by blast
next
  assume run: "sync early wire' rank' src grp async_op q = (out, q')"
  then have n: "network q' = network q"
    and m: "tensor_meta (memory q') = tensor_meta (memory q)" by (rule sync_frame)+
  from n show "network q' = network q" .
  from n m show "state_dict_meta q' = state_dict_meta q" by (simp add: state_dict_meta_def)
  from tensor_meta_pointwise [OF m]
  show "\<forall>v. shape (memory q' v) = shape (memory q v)
               \<and> dtype (memory q' v) = dtype (memory q v)"
    by blast
qed

lemma sample_main_sync_returns:
  "\<exists>p' calls. main_sync (replicate 4 (replicate 8 5)) 1
       \<lparr>network = small_network, memory = filled 2 7\<rparr> = (Returns p', calls)
     \<and> parameters_data p' = replicate 4 (replicate 8 5)"
proof -
  have "list_all2 (\<lambda>d v. length d = length (data (memory \<lparr>network = small_network, memory = filled 2 7\<rparr> v)))
          (replicate 4 (replicate 8 5)) (parameters (network \<lparr>network = small_network, memory = filled 2 7\<rparr>))"
    by (simp add: parameters_small_network filled_def float_tensor_def numeral_eq_Suc)
  moreover have "(1::nat) \<noteq> 0" by simp
  ultimately obtain p' calls where
    "main_sync (replicate 4 (replicate 8 5)) 1
       \<lparr>network = small_network, memory = filled 2 7\<rparr> = (Returns p', calls)"
    "parameters_data p' = replicate 4 (replicate 8 5)"
    using main_sync_recv [of 1 "\<lparr>network = small_network, memory = filled 2 7\<rparr>"
        "replicate 4 (replicate 8 5)"]
    by blast
  then show ?thesis by blast
qed

theorem sync_overwrites_in_place_witness:
  "(\<exists>p' calls. main_sync (replicate 4 (replicate 8 5)) 1
       \<lparr>network = small_network, memory = filled 2 7\<rparr> = (Returns p', calls)
      \<and> parameters_data p' = replicate 4 (replicate 8 5)
      \<and> network p' = small_network
      \<and> parameters_meta p' = replicate 4 ([2], float32, 8))
   \<and> (\<exists>hs q'. sync [True, True, True, True, False] (replicate 5 (replicate 4 9)) 1 0 0 False
         (sample_process 0) = (Returns hs, q')
      \<and> network q' = batch_norm
      \<and> state_dict_meta q' = state_dict_meta (sample_process 0))"
proof -
  let ?p = "\<lparr>network = small_network, memory = filled 2 7\<rparr>"
  let ?e = "[True, True, True, True, False]"
  from sample_main_sync_returns obtain p' calls where
    run: "main_sync (replicate 4 (replicate 8 5)) 1 ?p = (Returns p', calls)"
    and d: "parameters_data p' = replicate 4 (replicate 8 5)" by blast
  from sample_sync_blocking obtain hs q' where
    run2: "sync ?e (replicate 5 (replicate 4 9)) 1 0 0 False (sample_process 0) = (Returns hs, q')"
    by blast
  note inst = sync_overwrites_in_place [of "replicate 4 (replicate 8 5)" 1 ?p p' calls
      ?e "replicate 5 (replicate 4 9)" 1 0 0 False "sample_process 0" "Returns hs" q']
  from inst [THEN conjunct1, THEN mp, OF run]
  have a: "network p' = network ?p" and b: "parameters_meta p' = parameters_meta ?p"
    by blast+
  from inst [THEN conjunct2, THEN mp, OF run2]
  have c: "network q' = network (sample_process 0)"
    and e: "state_dict_meta q' = state_dict_meta (sample_process 0)"
    by blast+
  have f: "parameters_meta ?p = replicate 4 ([2], float32, 8)"
    by (simp add: parameters_meta_def parameters_small_network tensor_meta_def filled_def
        float_tensor_def numeral_eq_Suc)
  have g: "network (sample_process 0) = batch_norm" by (simp add: sample_process_def)
  have h: "network ?p = small_network" by simp
  from run d a [unfolded h] b [unfolded f]
  have 1: "\<exists>p' calls. main_sync (replicate 4 (replicate 8 5)) 1 ?p = (Returns p', calls)
      \<and> parameters_data p' = replicate 4 (replicate 8 5)
      \<and> network p' = small_network
      \<and> parameters_meta p' = replicate 4 ([2], float32, 8)"
    by blast
  from run2 c [unfolded g] e
  have 2: "\<exists>hs q'. sync ?e (replicate 5 (replicate 4 9)) 1 0 0 False (sample_process 0)
        = (Returns hs, q')
      \<and> network q' = batch_norm
      \<and> state_dict_meta q' = state_dict_meta (sample_process 0)"
    by blast
  from 1 2 show ?thesis by (rule conjI)
qed

text \<open>
  C10. \<^verbatim>\<open>BaseNetwork.sync\<close> issues one broadcast per entry of the state dictionary of
  the model, in the order of the dictionary, whatever the outcome of the call. The
  script broadcasts one buffer per element of \<^verbatim>\<open>network.parameters()\<close>, in that
  order. A model never has more parameters than state entries, and a model with
  persistent buffers has fewer: for the batch normalisation layer \<^verbatim>\<open>sync\<close>
  transmits five buffers where the script transmits two.
\<close>

theorem sync_broadcasts_state_dict:
  "map buffer (issued p (snd (sync early wire rank src grp async_op p)))
     = map snd (state_dict (network p))
   \<and> map call_meta (snd (main_sync wire' 0 q))
     = map (\<lambda>v. Bcast_call (tensor_meta (memory q) v) [] 0) (parameters (network q))
   \<and> (main_sync wire' rank' q = (Returns q', calls) \<longrightarrow>
        map call_meta calls
          = map (\<lambda>v. Bcast_call (tensor_meta (memory q) v) [] 0) (parameters (network q)))
   \<and> length (parameters m) \<le> length (state_dict m)
   \<and> length (parameters batch_norm) < length (state_dict batch_norm)"
proof (intro conjI impI)
  obtain out p' where run: "sync early wire rank src grp async_op p = (out, p')"
    by (cases "sync early wire rank src grp async_op p")
  from sync_frame(4) [OF run] run
  show "map buffer (issued p (snd (sync early wire rank src grp async_op p)))
     = map snd (state_dict (network p))" by simp
  show "map call_meta (snd (main_sync wire' 0 q))
     = map (\<lambda>v. Bcast_call (tensor_meta (memory q) v) [] 0) (parameters (network q))"
    by (simp add: main_sync_root comp_def)
  show "map call_meta calls
          = map (\<lambda>v. Bcast_call (tensor_meta (memory q) v) [] 0) (parameters (network q))"
    if "main_sync wire' rank' q = (Returns q', calls)"
    using main_sync_frame [OF that] by blast
  show "length (parameters m) \<le> length (state_dict m)"
    by (rule parameters_le_state_dict)
  show "length (parameters batch_norm) < length (state_dict batch_norm)"
    by (simp add: state_dict_batch_norm) (simp add: parameters_def batch_norm_def)
qed

theorem sync_broadcasts_state_dict_witness:
  "(\<exists>q' calls. main_sync (replicate 4 (replicate 8 5)) 1
        \<lparr>network = small_network, memory = filled 2 7\<rparr> = (Returns q', calls)
      \<and> map call_meta calls = replicate 4 (Bcast_call ([2], float32, 8) [] 0))
   \<and> map buffer (issued (sample_process 0)
         (snd (sync [] [] 0 0 0 True (sample_process 0)))) = [0, 1, 2, 3, 4]"
proof -
  let ?q = "\<lparr>network = small_network, memory = filled 2 7\<rparr>"
  from sample_main_sync_returns obtain q' calls where
    run: "main_sync (replicate 4 (replicate 8 5)) 1 ?q = (Returns q', calls)" by blast
  note inst = sync_broadcasts_state_dict [of "sample_process 0" "[]" "[]" 0 0 0 True
      "replicate 4 (replicate 8 5)" ?q 1 q' calls]
  from inst [THEN conjunct2, THEN conjunct2, THEN conjunct1, THEN mp, OF run]
  have "map call_meta calls
          = map (\<lambda>v. Bcast_call (tensor_meta (memory ?q) v) [] 0) (parameters (network ?q))" .
  also have "\<dots> = replicate 4 (Bcast_call ([2], float32, 8) [] 0)"
    by (simp add: parameters_small_network tensor_meta_def filled_def float_tensor_def
        numeral_eq_Suc)
  finally have 1: "\<exists>q' calls. main_sync (replicate 4 (replicate 8 5)) 1 ?q = (Returns q', calls)
      \<and> map call_meta calls = replicate 4 (Bcast_call ([2], float32, 8) [] 0)"
    using run by blast
  from inst [THEN conjunct1]
  have "map buffer (issued (sample_process 0) (snd (sync [] [] 0 0 0 True (sample_process 0))))
          = map snd (state_dict (network (sample_process 0)))" .
  also have "\<dots> = [0, 1, 2, 3, 4]"
    by (simp add: sample_process_def state_dict_batch_norm)
  finally have 2: "map buffer (issued (sample_process 0)
         (snd (sync [] [] 0 0 0 True (sample_process 0)))) = [0, 1, 2, 3, 4]" .
  from 1 2 show ?thesis by (rule conjI)
qed

lemma state_dict_registered:
  "set (map snd (state_dict_prefix pre m)) \<subseteq> set (registered m)"
proof (induction m arbitrary: pre)
  case (Module n ps bs ms)
  have 1: "map snd (map (\<lambda>(k, v). (pre @ k, v)) ps) = map snd ps"
    by (induction ps) auto
  have 2: "set (map snd (map (\<lambda>(k, persistent, v). (pre @ k, v))
                  (filter (\<lambda>(k, persistent, v). persistent) bs)))
         \<subseteq> set (map (\<lambda>(k, persistent, v). v) bs)"
    by (induction bs) auto
  have 3: "set (concat (map (\<lambda>c. map snd (state_dict_prefix (pre @ registered_name c @ ''.'') c)) ms))
         \<subseteq> set (concat (map registered ms))"
  proof
    fix x
    assume "x \<in> set (concat (map (\<lambda>c. map snd
                (state_dict_prefix (pre @ registered_name c @ ''.'') c)) ms))"
    then obtain c where c: "c \<in> set ms"
      and x: "x \<in> set (map snd (state_dict_prefix (pre @ registered_name c @ ''.'') c))"
      by auto
    from Module.IH [OF c] x have "x \<in> set (registered c)" by blast
    with c show "x \<in> set (concat (map registered ms))" by auto
  qed
  let ?A = "map snd (map (\<lambda>(k, v). (pre @ k, v)) ps)"
  let ?B = "map snd (map (\<lambda>(k, persistent, v). (pre @ k, v))
                  (filter (\<lambda>(k, persistent, v). persistent) bs))"
  let ?C = "concat (map (\<lambda>c. map snd (state_dict_prefix (pre @ registered_name c @ ''.'') c)) ms)"
  have eq: "map snd (state_dict_prefix pre (Module n ps bs ms)) = ?A @ ?B @ ?C"
    by (simp add: map_concat comp_def)
  from 1 have a: "set ?A \<subseteq> set (map snd ps)" by simp
  from a 2 3 have "set ?A \<union> (set ?B \<union> set ?C)
      \<subseteq> set (map snd ps) \<union> (set (map (\<lambda>(k, persistent, v). v) bs)
          \<union> set (concat (map registered ms)))"
    by (intro Un_mono)
  then have "set (?A @ ?B @ ?C)
      \<subseteq> set (map snd ps @ map (\<lambda>(k, persistent, v). v) bs @ concat (map registered ms))"
    unfolding set_append .
  then show ?case unfolding eq registered.simps .
qed

lemma all_parameters_registered: "set (all_parameters m) \<subseteq> set (registered m)"
proof (induction m)
  case (Module n ps bs ms)
  have "set (concat (map all_parameters ms)) \<subseteq> set (concat (map registered ms))"
  proof
    fix x assume "x \<in> set (concat (map all_parameters ms))"
    then obtain c where c: "c \<in> set ms" and x: "x \<in> set (all_parameters c)" by auto
    from Module.IH [OF c] x have "x \<in> set (registered c)" by blast
    with c show "x \<in> set (concat (map registered ms))" by auto
  qed
  then show ?case by auto
qed

lemma parameters_registered: "set (parameters m) \<subseteq> set (registered m)"
  using all_parameters_registered [of m] by (auto simp: parameters_def skip_memo_set)

lemma sync_issued_meta:
  assumes "sync early wire rank src grp async_op p = (out, p')"
  shows "map (work_meta p) (issued p p')
           = map (\<lambda>(k, v). (tensor_meta (memory p) v, src, grp)) (state_dict (network p))"
proof (rule nth_equalityI)
  note len = sync_frame(3) [OF assms]
  show "length (map (work_meta p) (issued p p'))
      = length (map (\<lambda>(k, v). (tensor_meta (memory p) v, src, grp)) (state_dict (network p)))"
    using len by simp
  fix i assume "i < length (map (work_meta p) (issued p p'))"
  with len have i: "i < length (issued p p')" "i < length (state_dict (network p))"
    by simp_all
  from i have "buffer (issued p p' ! i) = map buffer (issued p p') ! i" by simp
  also have "\<dots> = snd (state_dict (network p) ! i)"
    using i by (simp add: sync_frame(4) [OF assms])
  finally have b: "buffer (issued p p' ! i) = snd (state_dict (network p) ! i)" .
  from i have "source (issued p p' ! i) = map source (issued p p') ! i" by simp
  also have "\<dots> = src"
    using i by (simp add: sync_frame(5) [OF assms])
  finally have s: "source (issued p p' ! i) = src" .
  from i have "grp_of (issued p p' ! i) = map grp_of (issued p p') ! i" by simp
  also have "\<dots> = grp"
    using i by (simp add: sync_frame(6) [OF assms])
  finally have g: "grp_of (issued p p' ! i) = grp" .
  from i b s g
  show "map (work_meta p) (issued p p') ! i
      = map (\<lambda>(k, v). (tensor_meta (memory p) v, src, grp)) (state_dict (network p)) ! i"
    by (simp add: work_meta_def split_def)
qed

text \<open>
  C6. The broadcasts of one synchronisation are fixed by the topology of the model. Two
  processes that built the same model topology issue through \<^verbatim>\<open>BaseNetwork.sync\<close>
  the same sequence of broadcasts, position by position (the description of the buffer,
  the source, the group): one broadcast per entry of the state dictionary of the model,
  on the tensor of that entry, in the order of the dictionary, whatever their ranks, the
  contents of their buffers, the progress of the backend and the value of
  \<^verbatim>\<open>async_op\<close>. In lines 73-84 they enter the same sequence of \<^verbatim>\<open>Bcast\<close> calls,
  one per parameter of the model in the order of \<^verbatim>\<open>parameters()\<close>, whether they
  take the branch of rank 0 or the other one.
\<close>

theorem same_topology_same_broadcasts:
  "(same_topology p1 p2 \<longrightarrow>
      map (work_meta p1) (issued p1 (snd (sync e1 w1 r1 src grp a1 p1)))
        = map (work_meta p2) (issued p2 (snd (sync e2 w2 r2 src grp a2 p2)))
      \<and> map (work_meta p1) (issued p1 (snd (sync e1 w1 r1 src grp a1 p1)))
        = map (\<lambda>(k, v). (tensor_meta (memory p1) v, src, grp)) (state_dict (network p1))
      \<and> map buffer (issued p1 (snd (sync e1 w1 r1 src grp a1 p1)))
        = map snd (state_dict (network p1))
      \<and> map buffer (issued p2 (snd (sync e2 w2 r2 src grp a2 p2)))
        = map snd (state_dict (network p1)))
   \<and> (same_topology q1 q2
        \<and> main_sync v1 k1 q1 = (Returns q1', c1)
        \<and> main_sync v2 k2 q2 = (Returns q2', c2) \<longrightarrow>
      map call_meta c1 = map call_meta c2
      \<and> map call_meta c1
        = map (\<lambda>v. Bcast_call (tensor_meta (memory q1) v) [] 0) (parameters (network q1)))"
proof (intro conjI impI)
  obtain o1 p1' where run1: "sync e1 w1 r1 src grp a1 p1 = (o1, p1')"
    by (cases "sync e1 w1 r1 src grp a1 p1")
  obtain o2 p2' where run2: "sync e2 w2 r2 src grp a2 p2 = (o2, p2')"
    by (cases "sync e2 w2 r2 src grp a2 p2")
  assume t: "same_topology p1 p2"
  then have net: "network p2 = network p1"
    and meta: "\<And>v. v \<in> set (registered (network p1)) \<Longrightarrow>
      tensor_meta (memory p1) v = tensor_meta (memory p2) v"
    by (simp_all add: same_topology_def)
  have "map (\<lambda>(k, v). (tensor_meta (memory p1) v, src, grp)) (state_dict (network p1))
      = map (\<lambda>(k, v). (tensor_meta (memory p2) v, src, grp)) (state_dict (network p1))"
  proof (rule map_cong [OF refl])
    fix kv assume kv: "kv \<in> set (state_dict (network p1))"
    obtain k v where [simp]: "kv = (k, v)" by (cases kv)
    from kv have "v \<in> set (map snd (state_dict_prefix [] (network p1)))"
      by (force simp: state_dict_def)
    with state_dict_registered [of "[]" "network p1"]
    have "v \<in> set (registered (network p1))" by blast
    from meta [OF this]
    show "(case kv of (k, v) \<Rightarrow> (tensor_meta (memory p1) v, src, grp))
        = (case kv of (k, v) \<Rightarrow> (tensor_meta (memory p2) v, src, grp))" by simp
  qed
  then show "map (work_meta p1) (issued p1 (snd (sync e1 w1 r1 src grp a1 p1)))
        = map (work_meta p2) (issued p2 (snd (sync e2 w2 r2 src grp a2 p2)))"
    by (simp add: run1 run2 sync_issued_meta [OF run1] sync_issued_meta [OF run2] net)
  show "map (work_meta p1) (issued p1 (snd (sync e1 w1 r1 src grp a1 p1)))
        = map (\<lambda>(k, v). (tensor_meta (memory p1) v, src, grp)) (state_dict (network p1))"
    by (simp add: run1 sync_issued_meta [OF run1])
  show "map buffer (issued p1 (snd (sync e1 w1 r1 src grp a1 p1)))
        = map snd (state_dict (network p1))"
    by (simp add: run1 sync_frame(4) [OF run1])
  show "map buffer (issued p2 (snd (sync e2 w2 r2 src grp a2 p2)))
        = map snd (state_dict (network p1))"
    by (simp add: run2 sync_frame(4) [OF run2] net)
next
  assume h: "same_topology q1 q2
        \<and> main_sync v1 k1 q1 = (Returns q1', c1)
        \<and> main_sync v2 k2 q2 = (Returns q2', c2)"
  then have r1: "main_sync v1 k1 q1 = (Returns q1', c1)"
    and r2: "main_sync v2 k2 q2 = (Returns q2', c2)"
    and net: "network q2 = network q1"
    and meta: "\<And>v. v \<in> set (registered (network q1)) \<Longrightarrow>
      tensor_meta (memory q1) v = tensor_meta (memory q2) v"
    by (simp_all add: same_topology_def)
  from main_sync_frame [OF r1]
  have m1: "map call_meta c1
      = map (\<lambda>v. Bcast_call (tensor_meta (memory q1) v) [] 0) (parameters (network q1))"
    by blast
  from main_sync_frame [OF r2] net
  have m2: "map call_meta c2
      = map (\<lambda>v. Bcast_call (tensor_meta (memory q2) v) [] 0) (parameters (network q1))"
    by simp
  have "map (\<lambda>v. Bcast_call (tensor_meta (memory q1) v) [] 0) (parameters (network q1))
      = map (\<lambda>v. Bcast_call (tensor_meta (memory q2) v) [] 0) (parameters (network q1))"
  proof (rule map_cong [OF refl])
    fix v assume "v \<in> set (parameters (network q1))"
    with parameters_registered [of "network q1"]
    have "v \<in> set (registered (network q1))" by blast
    from meta [OF this]
    show "Bcast_call (tensor_meta (memory q1) v) [] 0
        = Bcast_call (tensor_meta (memory q2) v) [] 0" by simp
  qed
  with m1 m2 show "map call_meta c1 = map call_meta c2" by simp
  from m1 show "map call_meta c1
      = map (\<lambda>v. Bcast_call (tensor_meta (memory q1) v) [] 0) (parameters (network q1))" .
qed

lemma state_dict_small_network:
  "state_dict small_network =
     [(''fc.weight'', 10), (''fc.bias'', 11), (''bn.weight'', 0), (''bn.bias'', 1),
      (''bn.running_mean'', 2), (''bn.running_var'', 3), (''bn.num_batches_tracked'', 4)]"
  by (simp add: state_dict_def small_network_def batch_norm_def)

lemma tensor_meta_sized: "tensor_meta (sized b) v = ([Suc v], uint8, Suc v)"
  by (simp add: tensor_meta_def sized_def)

lemma network_peer_returns:
  "\<exists>q' c. main_sync (parameters_data (network_peer 1)) 1 (network_peer 7) = (Returns q', c)"
proof -
  have "list_all2 (\<lambda>d v. length d = length (data (memory (network_peer 7) v)))
          (parameters_data (network_peer 1)) (parameters (network (network_peer 7)))"
    by (simp add: parameters_data_def network_peer_def parameters_small_network sized_def)
  moreover have "(1::nat) \<noteq> 0" by simp
  ultimately show ?thesis
    using main_sync_recv [of 1 "network_peer 7" "parameters_data (network_peer 1)"]
    by blast
qed

theorem same_topology_same_broadcasts_witness:
  "map (work_meta (network_process 1))
       (issued (network_process 1) (snd (sync [] [] 0 0 0 True (network_process 1))))
     = [(([11], uint8, 11), 0, 0), (([12], uint8, 12), 0, 0), (([1], uint8, 1), 0, 0),
        (([2], uint8, 2), 0, 0), (([3], uint8, 3), 0, 0), (([4], uint8, 4), 0, 0),
        (([5], uint8, 5), 0, 0)]
   \<and> map (work_meta (network_process 7))
       (issued (network_process 7) (snd (sync [True] [] 1 0 0 False (network_process 7))))
     = [(([11], uint8, 11), 0, 0), (([12], uint8, 12), 0, 0), (([1], uint8, 1), 0, 0),
        (([2], uint8, 2), 0, 0), (([3], uint8, 3), 0, 0), (([4], uint8, 4), 0, 0),
        (([5], uint8, 5), 0, 0)]
   \<and> map buffer
       (issued (network_process 7) (snd (sync [True] [] 1 0 0 False (network_process 7))))
     = [10, 11, 0, 1, 2, 3, 4]
   \<and> map call_meta (snd (main_sync [] 0 (network_peer 1)))
     = [Bcast_call ([11], uint8, 11) [] 0, Bcast_call ([12], uint8, 12) [] 0,
        Bcast_call ([1], uint8, 1) [] 0, Bcast_call ([2], uint8, 2) [] 0]
   \<and> map call_meta (snd (main_sync (parameters_data (network_peer 1)) 1 (network_peer 7)))
     = [Bcast_call ([11], uint8, 11) [] 0, Bcast_call ([12], uint8, 12) [] 0,
        Bcast_call ([1], uint8, 1) [] 0, Bcast_call ([2], uint8, 2) [] 0]"
proof -
  let ?p1 = "network_process 1" and ?p2 = "network_process 7"
  let ?q1 = "network_peer 1" and ?q2 = "network_peer 7"
  let ?ms = "[(([11], uint8, 11), 0, 0), (([12], uint8, 12), 0, 0), (([1], uint8, 1), 0, 0),
        (([2], uint8, 2), 0, 0), (([3], uint8, 3), 0, 0), (([4], uint8, 4), 0, 0),
        (([5], uint8, 5), 0, 0)] :: ((nat list \<times> scalar_type \<times> nat) \<times> nat \<times> nat) list"
  let ?cs = "[Bcast_call ([11], uint8, 11) [] 0, Bcast_call ([12], uint8, 12) [] 0,
        Bcast_call ([1], uint8, 1) [] 0, Bcast_call ([2], uint8, 2) [] 0]"
  obtain c1 where r1: "main_sync [] 0 ?q1 = (Returns ?q1, c1)"
    by (simp add: main_sync_root)
  from network_peer_returns obtain q2' c2 where
    r2: "main_sync (parameters_data ?q1) 1 ?q2 = (Returns q2', c2)" by blast
  have t1: "same_topology ?p1 ?p2"
    by (simp add: same_topology_def network_process_def tensor_meta_sized)
  have t2: "same_topology ?q1 ?q2"
    by (simp add: same_topology_def network_peer_def tensor_meta_sized)
  note inst = same_topology_same_broadcasts
    [of ?p1 ?p2 "[]" "[]" 0 0 0 True "[True]" "[]" 1 False
        ?q1 ?q2 "[]" 0 ?q1 c1 "parameters_data ?q1" 1 q2' c2]
  note sy = inst [THEN conjunct1, THEN mp, OF t1]
  have l: "map (\<lambda>(k, v). (tensor_meta (memory ?p1) v, 0::nat, 0::nat))
             (state_dict (network ?p1)) = ?ms"
    by (simp add: network_process_def state_dict_small_network tensor_meta_sized)
  from sy [THEN conjunct2, THEN conjunct1] l
  have 1: "map (work_meta ?p1) (issued ?p1 (snd (sync [] [] 0 0 0 True ?p1))) = ?ms"
    by (rule trans)
  from sy [THEN conjunct1, symmetric] 1
  have 2: "map (work_meta ?p2) (issued ?p2 (snd (sync [True] [] 1 0 0 False ?p2))) = ?ms"
    by (rule trans)
  have "map snd (state_dict (network ?p1)) = [10, 11, 0, 1, 2, 3, 4]"
    by (simp add: network_process_def state_dict_small_network)
  with sy [THEN conjunct2, THEN conjunct2, THEN conjunct2]
  have 3: "map buffer (issued ?p2 (snd (sync [True] [] 1 0 0 False ?p2)))
      = [10, 11, 0, 1, 2, 3, 4]"
    by (rule trans)
  from t2 r1 r2 have "same_topology ?q1 ?q2
        \<and> main_sync [] 0 ?q1 = (Returns ?q1, c1)
        \<and> main_sync (parameters_data ?q1) 1 ?q2 = (Returns q2', c2)" by blast
  note ma = inst [THEN conjunct2, THEN mp, OF this]
  have "map (\<lambda>v. Bcast_call (tensor_meta (memory ?q1) v) [] 0) (parameters (network ?q1)) = ?cs"
    by (simp add: network_peer_def parameters_small_network tensor_meta_sized)
  with ma [THEN conjunct2] have c1: "map call_meta c1 = ?cs" by (rule trans)
  with ma [THEN conjunct1] have c2: "map call_meta c2 = ?cs" by simp
  from c1 r1 have 4: "map call_meta (snd (main_sync [] 0 ?q1)) = ?cs" by simp
  from c2 r2 have 5: "map call_meta (snd (main_sync (parameters_data ?q1) 1 ?q2)) = ?cs"
    by simp
  from 1 2 3 4 5 show ?thesis by (intro conjI)
qed

end
